theory Spec2Isabelle
  imports Complex_Main "HOL-Library.Sublist" "HOL-Library.Char_ord" "HOL-Library.List_Lexorder"
begin

section \<open>Trade records (src/models.py)\<close>

datatype OptionType = CALL | PUT

text \<open>
  The validated trade object. Python floats are embedded as reals: rounding, infinities and
  NaN are outside the model.
\<close>

record FXOptionTrade =
  trade_id :: string
  pair :: string
  spot_price :: real
  strike_price :: real
  notional :: real
  notional_currency :: string
  volatility :: real
  domestic_rate :: real
  foreign_rate :: real
  time_to_maturity :: real
  option_type :: OptionType

text \<open>
  A raw input row maps field names to untyped cells: text, or a number (an int, a float or
  a bool, all of which the schema accepts where a float is expected).
\<close>

datatype raw = RStr string | RNum real

type_synonym raw_row = "string \<rightharpoonup> raw"

text \<open>One entry of a \<open>ValidationError\<close>: the kind of the violation and the reported field
  (the alias), or the message of the \<open>ValueError\<close> raised by the model validator.\<close>

datatype verr =
    Missing string
  | StringType string
  | FloatParsing string
  | PatternMismatch string
  | GreaterThan string real
  | LessThanEqual string real
  | EnumError string
  | ValueError string

text \<open>\<open>populate_by_name=True\<close>: a field is read under its alias, else under its name.\<close>

definition lookup_field :: "raw_row \<Rightarrow> string \<Rightarrow> string \<Rightarrow> raw option" where
  "lookup_field row alias name = (case row alias of Some v \<Rightarrow> Some v | None \<Rightarrow> row name)"

definition is_upper :: "char \<Rightarrow> bool" where
  "is_upper c = (CHR ''A'' \<le> c \<and> c \<le> CHR ''Z'')"

text \<open>The pattern \<open>^[A-Z]{3}$\<close>.\<close>

definition ccy_pattern :: "string \<Rightarrow> bool" where
  "ccy_pattern s = (length s = 3 \<and> list_all is_upper s)"

text \<open>The pattern \<open>^[A-Z]{3}/[A-Z]{3}$\<close>.\<close>

definition pair_pattern :: "string \<Rightarrow> bool" where
  "pair_pattern s =
     (length s = 7 \<and> list_all is_upper (take 3 s) \<and> s ! 3 = CHR ''/'' \<and>
      list_all is_upper (drop 4 s))"

text \<open>A \<open>str\<close> field with an optional pattern: only text is accepted.\<close>

definition str_field ::
  "raw_row \<Rightarrow> string \<Rightarrow> string \<Rightarrow> (string \<Rightarrow> bool) \<Rightarrow> verr + string" where
  "str_field row alias name pat =
     (case lookup_field row alias name of
        None \<Rightarrow> Inl (Missing alias)
      | Some (RNum x) \<Rightarrow> Inl (StringType alias)
      | Some (RStr s) \<Rightarrow> if pat s then Inr s else Inl (PatternMismatch alias))"

text \<open>A \<open>float\<close> field with optional bounds \<open>gt\<close> and \<open>le\<close>. Text is coerced by the
  schema library's float parser, a parameter \<open>parse\<close> of the model.\<close>

definition float_field ::
  "(string \<Rightarrow> real option) \<Rightarrow> raw_row \<Rightarrow> string \<Rightarrow> string \<Rightarrow> real option \<Rightarrow> real option
     \<Rightarrow> verr + real" where
  "float_field parse row alias name gt le =
     (case (case lookup_field row alias name of
              None \<Rightarrow> Inl (Missing alias)
            | Some (RNum x) \<Rightarrow> Inr x
            | Some (RStr s) \<Rightarrow>
                (case parse s of None \<Rightarrow> Inl (FloatParsing alias) | Some x \<Rightarrow> Inr x)) of
        Inl e \<Rightarrow> Inl e
      | Inr x \<Rightarrow>
          (case gt of
             Some lo \<Rightarrow> if x > lo then
                          (case le of
                             Some hi \<Rightarrow> if x \<le> hi then Inr x else Inl (LessThanEqual alias hi)
                           | None \<Rightarrow> Inr x)
                        else Inl (GreaterThan alias lo)
           | None \<Rightarrow>
               (case le of
                  Some hi \<Rightarrow> if x \<le> hi then Inr x else Inl (LessThanEqual alias hi)
                | None \<Rightarrow> Inr x)))"

text \<open>The enum field: the values \<open>"Call"\<close> and \<open>"Put"\<close>.\<close>

definition enum_field :: "raw_row \<Rightarrow> string \<Rightarrow> string \<Rightarrow> verr + OptionType" where
  "enum_field row alias name =
     (case lookup_field row alias name of
        None \<Rightarrow> Inl (Missing alias)
      | Some (RNum x) \<Rightarrow> Inl (EnumError alias)
      | Some (RStr s) \<Rightarrow>
          if s = ''Call'' then Inr CALL
          else if s = ''Put'' then Inr PUT
          else Inl (EnumError alias))"

fun err_of :: "verr + 'a \<Rightarrow> verr list" where
  "err_of (Inl e) = [e]"
| "err_of (Inr x) = []"

text \<open>The field declarations of \<open>FXOptionTrade\<close>, in order. Every field is validated, and
  the errors of all fields are collected; the record exists only when there is none.\<close>

definition validate_fields :: "(string \<Rightarrow> real option) \<Rightarrow> raw_row \<Rightarrow> verr list + FXOptionTrade" where
  "validate_fields parse row =
     (let r1 = str_field row ''TradeID'' ''trade_id'' (\<lambda>s. True);
          r2 = str_field row ''Underlying'' ''pair'' pair_pattern;
          r3 = float_field parse row ''Spot'' ''spot_price'' (Some 0) None;
          r4 = float_field parse row ''Strike'' ''strike_price'' (Some 0) None;
          r5 = float_field parse row ''Notional'' ''notional'' (Some 0) None;
          r6 = str_field row ''NotionalCurrency'' ''notional_currency'' ccy_pattern;
          r7 = float_field parse row ''Vol'' ''volatility'' (Some 0) (Some 5);
          r8 = float_field parse row ''RateDomestic'' ''domestic_rate'' None None;
          r9 = float_field parse row ''RateForeign'' ''foreign_rate'' None None;
          r10 = float_field parse row ''Expiry'' ''time_to_maturity'' (Some 0) (Some 100);
          r11 = enum_field row ''OptionType'' ''option_type'';
          errs = err_of r1 @ err_of r2 @ err_of r3 @ err_of r4 @ err_of r5 @ err_of r6 @
                 err_of r7 @ err_of r8 @ err_of r9 @ err_of r10 @ err_of r11
      in if errs = [] then
           Inr \<lparr> trade_id = projr r1, pair = projr r2, spot_price = projr r3,
                 strike_price = projr r4, notional = projr r5, notional_currency = projr r6,
                 volatility = projr r7, domestic_rate = projr r8, foreign_rate = projr r9,
                 time_to_maturity = projr r10, option_type = projr r11 \<rparr>
         else Inl errs)"

text \<open>\<open>str.split\<close> on a one-character separator.\<close>

fun split_on :: "char \<Rightarrow> string \<Rightarrow> string list" where
  "split_on c [] = [[]]"
| "split_on c (x # xs) =
     (if x = c then [] # split_on c xs
      else (case split_on c xs of
              w # ws \<Rightarrow> (x # w) # ws
            | [] \<Rightarrow> [[x]]))"

text \<open>The tuple unpacking \<open>base, quote = pair.split('/')\<close>: \<open>None\<close> is the \<open>ValueError\<close> of an
  unpacking with other than two parts.\<close>

definition unpack_pair :: "string \<Rightarrow> (string \<times> string) option" where
  "unpack_pair p = (case split_on CHR ''/'' p of [b, q] \<Rightarrow> Some (b, q) | _ \<Rightarrow> None)"

definition quoted :: "string \<Rightarrow> string" where
  "quoted s = [CHR 0x27] @ s @ [CHR 0x27]"

definition currency_message :: "string \<Rightarrow> string \<Rightarrow> string \<Rightarrow> string \<Rightarrow> string" where
  "currency_message nc p base quote =
     ''Notional Currency '' @ quoted nc @ '' is invalid for Pair '' @ quoted p @
     ''. Must be either '' @ quoted base @ '' or '' @ quoted quote @ ''.''"

text \<open>The model validator \<open>check_currency_consistency\<close> (mode \<open>after\<close>).\<close>

definition check_currency_consistency :: "FXOptionTrade \<Rightarrow> verr + FXOptionTrade" where
  "check_currency_consistency self =
     (if CHR ''/'' \<notin> set (pair self) then Inr self
      else (case unpack_pair (pair self) of
              None \<Rightarrow> Inl (ValueError ''too many values to unpack (expected 2)'')
            | Some (base, quote) \<Rightarrow>
                if notional_currency self \<notin> {base, quote}
                then Inl (ValueError
                       (currency_message (notional_currency self) (pair self) base quote))
                else Inr self))"

text \<open>Construction \<open>FXOptionTrade(**row)\<close>: the field validators, then, only when all of
  them have passed, the model validator.\<close>

definition validate :: "(string \<Rightarrow> real option) \<Rightarrow> raw_row \<Rightarrow> verr list + FXOptionTrade" where
  "validate parse row =
     (case validate_fields parse row of
        Inl errs \<Rightarrow> Inl errs
      | Inr t \<Rightarrow>
          (case check_currency_consistency t of
             Inl e \<Rightarrow> Inl [e]
           | Inr t' \<Rightarrow> Inr t'))"

section \<open>The standard normal distribution (scipy.stats.norm)\<close>

text \<open>
  \<open>norm.pdf\<close> and \<open>norm.cdf\<close> are library functions, not code of the repository. They are
  embedded as the exact density and as the Maclaurin series of the distribution function,
  \<open>\<Phi>(x) = 1/2 + (1/\<surd>(2\<pi>)) \<Sum>n. (-1)^n x^(2n+1) / (n! 2^n (2n+1))\<close>.
\<close>

definition norm_pdf :: "real \<Rightarrow> real" where
  "norm_pdf x = exp (- (x\<^sup>2) / 2) / sqrt (2 * pi)"

definition cdf_term :: "real \<Rightarrow> nat \<Rightarrow> real" where
  "cdf_term x n = (- 1) ^ n * x ^ (2 * n + 1) / (fact n * 2 ^ n * real (2 * n + 1))"

definition norm_cdf :: "real \<Rightarrow> real" where
  "norm_cdf x = 1 / 2 + (\<Sum>n. cdf_term x n) / sqrt (2 * pi)"

section \<open>Pricing engine (src/pricing.py)\<close>

text \<open>The exceptions the engine can raise.\<close>

datatype py_error = ZeroDivisionError | OverflowError | UnboundLocalError | KeyError string

record Metrics =
  PV_Native :: real
  Delta_Native :: real
  Vega_Native :: real
  Currency :: string
  PV_USD :: real
  Delta_USD :: real
  Vega_USD :: real

text \<open>A Python float power raises \<open>OverflowError\<close> when its result is out of the range of
  a double, that is, when the exact value is at least \<open>2^1024 - 2^970\<close>, which rounding
  takes to an infinity.\<close>

definition float_overflow :: "real \<Rightarrow> bool" where
  "float_overflow x = (2 ^ 1024 - 2 ^ 970 \<le> \<bar>x\<bar>)"

text \<open>\<open>BlackScholesFX._calculate_d1_d2\<close>. Two operations of line 28 are on Python floats and
  can raise, in this order: the division \<open>S / K\<close>, on a zero divisor, and the power
  \<open>sigma ** 2\<close>, on overflow. The other operations are on Python floats without a raising
  case (sum, product) or numpy's, which warn and return an infinity or a NaN.\<close>

definition calculate_d1_d2 ::
  "real \<Rightarrow> real \<Rightarrow> real \<Rightarrow> real \<Rightarrow> real \<Rightarrow> real \<Rightarrow> py_error + (real \<times> real)" where
  "calculate_d1_d2 S K T rd rf sigma =
     (if K = 0 then Inl ZeroDivisionError
      else if float_overflow (sigma\<^sup>2) then Inl OverflowError
      else
        let sqrt_T = sqrt T;
            d1 = (ln (S / K) + (rd - rf + 0.5 * sigma\<^sup>2) * T) / (sigma * sqrt_T);
            d2 = d1 - sigma * sqrt_T
        in Inr (d1, d2))"

text \<open>Step 5 of \<open>calculate_metrics\<close>, the conversion rate. After a failed unpacking
  \<open>base_ccy\<close> is unbound, and reading it raises.\<close>

definition fx_rate_to_usd :: "string \<Rightarrow> string \<Rightarrow> real \<Rightarrow> py_error + real" where
  "fx_rate_to_usd p reporting_currency S =
     (let (base_ccy, quote_ccy) =
            (case unpack_pair p of
               Some (b, q) \<Rightarrow> (Some b, q)
             | None \<Rightarrow> (None, ''Unknown''))
      in if quote_ccy = reporting_currency then Inr 1
         else (case base_ccy of
                 None \<Rightarrow> Inl UnboundLocalError
               | Some b \<Rightarrow>
                   if b = reporting_currency \<and> quote_ccy \<noteq> reporting_currency
                   then (if S = 0 then Inl ZeroDivisionError else Inr (1 / S))
                   else Inr 1))"

definition quote_ccy_of :: "string \<Rightarrow> string" where
  "quote_ccy_of p = (case unpack_pair p of Some (b, q) \<Rightarrow> q | None \<Rightarrow> ''Unknown'')"

definition calculate_metrics :: "FXOptionTrade \<Rightarrow> string \<Rightarrow> py_error + Metrics" where
  "calculate_metrics trade reporting_currency =
     (let S = spot_price trade;
          K = strike_price trade;
          T = time_to_maturity trade;
          sigma = volatility trade;
          rd = domestic_rate trade;
          rf = foreign_rate trade;
          n = notional trade
      in case calculate_d1_d2 S K T rd rf sigma of
           Inl e \<Rightarrow> Inl e
         | Inr (d1, d2) \<Rightarrow>
             let disc_d = exp (- rd * T);
                 disc_f = exp (- rf * T);
                 price_unit =
                   (if option_type trade = CALL
                    then S * disc_f * norm_cdf d1 - K * disc_d * norm_cdf d2
                    else K * disc_d * norm_cdf (- d2) - S * disc_f * norm_cdf (- d1));
                 delta_unit =
                   (if option_type trade = CALL
                    then disc_f * norm_cdf d1
                    else disc_f * (norm_cdf d1 - 1));
                 vega_unit = S * disc_f * norm_pdf d1 * sqrt T;
                 pv_native = price_unit * n;
                 delta_native = delta_unit * n;
                 vega_native = vega_unit * n
             in (case fx_rate_to_usd (pair trade) reporting_currency S of
                   Inl e \<Rightarrow> Inl e
                 | Inr rate \<Rightarrow>
                     Inr \<lparr> PV_Native = pv_native,
                           Delta_Native = delta_native,
                           Vega_Native = vega_native,
                           Currency = quote_ccy_of (pair trade),
                           PV_USD = pv_native * rate,
                           Delta_USD = delta_native * rate,
                           Vega_USD = vega_native * rate \<rparr>))"

section \<open>Portfolio aggregation (src/aggregator.py)\<close>

text \<open>
  One result row, with the columns the aggregator reads, and a frame: its column labels and
  its rows. A cell of a column that the frame does not have is never read.
\<close>

record ResultRow =
  Status :: string
  Pair_col :: string
  Currency_col :: string
  PV_USD_col :: real
  Delta_USD_col :: real
  Vega_USD_col :: real

record DataFrame =
  columns :: "string list"
  rows :: "ResultRow list"

text \<open>The columns of the result dictionaries built by the batch driver.\<close>

definition result_columns :: "string list" where
  "result_columns =
     [''TradeID'', ''Pair'', ''Type'', ''Notional'', ''Currency'', ''PV_Native'', ''Delta_Native'',
      ''Vega_Native'', ''PV_USD'', ''Delta_USD'', ''Vega_USD'', ''Status'']"

definition prepare_trade_report :: "ResultRow list \<Rightarrow> DataFrame" where
  "prepare_trade_report results =
     (if results \<noteq> [] then \<lparr> columns = result_columns, rows = results \<rparr>
      else \<lparr> columns = [], rows = [] \<rparr>)"

definition empty_frame :: "DataFrame \<Rightarrow> bool" where
  "empty_frame df = (rows df = [] \<or> columns df = [])"

definition success_rows :: "DataFrame \<Rightarrow> ResultRow list" where
  "success_rows df = filter (\<lambda>r. Status r = ''Success'') (rows df)"

text \<open>A cell of the summary frame: text, a float or a row count.\<close>

datatype cell = Str string | Num real | Count nat

definition missing_column :: "DataFrame \<Rightarrow> string list \<Rightarrow> string option" where
  "missing_column df cs = find (\<lambda>c. c \<notin> set (columns df)) cs"

definition calculate_portfolio_totals :: "DataFrame \<Rightarrow> py_error + (string \<times> cell) list" where
  "calculate_portfolio_totals df =
     (if empty_frame df \<or> ''Status'' \<notin> set (columns df) then Inr []
      else
        let valid_df = success_rows df
        in if valid_df = [] then Inr [(''Status'', Str ''No Valid Trades'')]
           else (case missing_column df [''PV_USD'', ''Delta_USD'', ''Vega_USD''] of
                   Some c \<Rightarrow> Inl (KeyError c)
                 | None \<Rightarrow>
                     let total_pv = sum_list (map PV_USD_col valid_df);
                         total_delta = sum_list (map Delta_USD_col valid_df);
                         total_vega = sum_list (map Vega_USD_col valid_df)
                     in Inr [(''Total PV (USD)'', Num total_pv),
                             (''Total Delta (USD)'', Num total_delta),
                             (''Total Vega (USD)'', Num total_vega),
                             (''Valid Trades'', Count (length valid_df))]))"

text \<open>\<open>groupby(key)[[PV_USD, Delta_USD, Vega_USD]].sum().reset_index()\<close>: one row per
  distinct key, keys in ascending order.\<close>

definition group_sum ::
  "(ResultRow \<Rightarrow> string) \<Rightarrow> ResultRow list \<Rightarrow> (string \<times> real \<times> real \<times> real) list" where
  "group_sum key rs =
     map (\<lambda>k. let g = filter (\<lambda>r. key r = k) rs
              in (k, sum_list (map PV_USD_col g), sum_list (map Delta_USD_col g),
                  sum_list (map Vega_USD_col g)))
         (sort (remdups (map key rs)))"

definition group_risk ::
  "string \<Rightarrow> (ResultRow \<Rightarrow> string) \<Rightarrow> DataFrame
     \<Rightarrow> py_error + (string \<times> real \<times> real \<times> real) list" where
  "group_risk label key df =
     (if empty_frame df \<or> label \<notin> set (columns df) then Inr []
      else if ''Status'' \<notin> set (columns df) then Inl (KeyError ''Status'')
      else
        let valid_df = success_rows df
        in (case missing_column df [''PV_USD'', ''Delta_USD'', ''Vega_USD''] of
              Some c \<Rightarrow> Inl (KeyError c)
            | None \<Rightarrow> Inr (group_sum key valid_df)))"

definition group_risk_by_pair ::
  "DataFrame \<Rightarrow> py_error + (string \<times> real \<times> real \<times> real) list" where
  "group_risk_by_pair df = group_risk ''Pair'' Pair_col df"

definition group_risk_by_currency ::
  "DataFrame \<Rightarrow> py_error + (string \<times> real \<times> real \<times> real) list" where
  "group_risk_by_currency df = group_risk ''Currency'' Currency_col df"

section \<open>Reference definitions\<close>

text \<open>
  The two legs of a well-formed pair, and the invariant of a trade record: the field bounds
  of the schema and the cross-field rule.
\<close>

definition base_of :: "string \<Rightarrow> string" where
  "base_of p = take 3 p"

definition quote_of :: "string \<Rightarrow> string" where
  "quote_of p = drop 4 p"

definition valid_trade :: "FXOptionTrade \<Rightarrow> bool" where
  "valid_trade t =
     (pair_pattern (pair t) \<and> 0 < spot_price t \<and> 0 < strike_price t \<and> 0 < notional t \<and>
      ccy_pattern (notional_currency t) \<and>
      0 < volatility t \<and> volatility t \<le> 5 \<and>
      0 < time_to_maturity t \<and> time_to_maturity t \<le> 100 \<and>
      notional_currency t \<in> {base_of (pair t), quote_of (pair t)})"

definition gk_d1 :: "real \<Rightarrow> real \<Rightarrow> real \<Rightarrow> real \<Rightarrow> real \<Rightarrow> real \<Rightarrow> real" where
  "gk_d1 S K T r_d r_f \<sigma> = (ln (S / K) + (r_d - r_f + 0.5 * \<sigma>\<^sup>2) * T) / (\<sigma> * sqrt T)"

definition gk_d2 :: "real \<Rightarrow> real \<Rightarrow> real \<Rightarrow> real \<Rightarrow> real \<Rightarrow> real \<Rightarrow> real" where
  "gk_d2 S K T r_d r_f \<sigma> = gk_d1 S K T r_d r_f \<sigma> - \<sigma> * sqrt T"

fun gk_unit_price :: "OptionType \<Rightarrow> real \<Rightarrow> real \<Rightarrow> real \<Rightarrow> real \<Rightarrow> real \<Rightarrow> real \<Rightarrow> real" where
  "gk_unit_price CALL S K T r_d r_f \<sigma> =
     S * exp (- r_f * T) * norm_cdf (gk_d1 S K T r_d r_f \<sigma>)
     - K * exp (- r_d * T) * norm_cdf (gk_d2 S K T r_d r_f \<sigma>)"
| "gk_unit_price PUT S K T r_d r_f \<sigma> =
     K * exp (- r_d * T) * norm_cdf (- gk_d2 S K T r_d r_f \<sigma>)
     - S * exp (- r_f * T) * norm_cdf (- gk_d1 S K T r_d r_f \<sigma>)"

fun gk_unit_delta :: "OptionType \<Rightarrow> real \<Rightarrow> real \<Rightarrow> real \<Rightarrow> real \<Rightarrow> real \<Rightarrow> real \<Rightarrow> real" where
  "gk_unit_delta CALL S K T r_d r_f \<sigma> = exp (- r_f * T) * norm_cdf (gk_d1 S K T r_d r_f \<sigma>)"
| "gk_unit_delta PUT S K T r_d r_f \<sigma> =
     exp (- r_f * T) * (norm_cdf (gk_d1 S K T r_d r_f \<sigma>) - 1)"

definition gk_unit_vega :: "real \<Rightarrow> real \<Rightarrow> real \<Rightarrow> real \<Rightarrow> real \<Rightarrow> real \<Rightarrow> real" where
  "gk_unit_vega S K T r_d r_f \<sigma> =
     S * exp (- r_f * T) * norm_pdf (gk_d1 S K T r_d r_f \<sigma>) * sqrt T"

definition conversion_factor :: "string \<Rightarrow> string \<Rightarrow> real \<Rightarrow> real" where
  "conversion_factor p reporting S =
     (if quote_of p = reporting then 1
      else if base_of p = reporting then 1 / S
      else 1)"

definition eurusd_call :: FXOptionTrade where
  "eurusd_call =
     \<lparr> trade_id = ''TEST_EUR'', pair = ''EUR/USD'', spot_price = 1.10, strike_price = 1.10,
       notional = 1000000, notional_currency = ''USD'', volatility = 0.20,
       domestic_rate = 0.05, foreign_rate = 0.02, time_to_maturity = 1.0,
       option_type = CALL \<rparr>"

definition usdjpy_call :: FXOptionTrade where
  "usdjpy_call =
     \<lparr> trade_id = ''TEST_JPY'', pair = ''USD/JPY'', spot_price = 100.0, strike_price = 100.0,
       notional = 100000000, notional_currency = ''JPY'', volatility = 0.10,
       domestic_rate = 0.01, foreign_rate = 0.05, time_to_maturity = 0.5,
       option_type = CALL \<rparr>"

text \<open>
  The errors of the field validators, in field order; example rows, the first being the
  baseline row of the repository's tests; and a float parser that accepts no text.
\<close>

definition field_errors :: "(string \<Rightarrow> real option) \<Rightarrow> raw_row \<Rightarrow> verr list" where
  "field_errors parse row =
     err_of (str_field row ''TradeID'' ''trade_id'' (\<lambda>s. True)) @
     err_of (str_field row ''Underlying'' ''pair'' pair_pattern) @
     err_of (float_field parse row ''Spot'' ''spot_price'' (Some 0) None) @
     err_of (float_field parse row ''Strike'' ''strike_price'' (Some 0) None) @
     err_of (float_field parse row ''Notional'' ''notional'' (Some 0) None) @
     err_of (str_field row ''NotionalCurrency'' ''notional_currency'' ccy_pattern) @
     err_of (float_field parse row ''Vol'' ''volatility'' (Some 0) (Some 5)) @
     err_of (float_field parse row ''RateDomestic'' ''domestic_rate'' None None) @
     err_of (float_field parse row ''RateForeign'' ''foreign_rate'' None None) @
     err_of (float_field parse row ''Expiry'' ''time_to_maturity'' (Some 0) (Some 100)) @
     err_of (enum_field row ''OptionType'' ''option_type'')"

definition valid_row :: raw_row where
  "valid_row = map_of
     [(''TradeID'', RStr ''T1''), (''Underlying'', RStr ''EUR/USD''), (''Spot'', RNum 1.10),
      (''Strike'', RNum 1.12), (''Notional'', RNum 1000000), (''NotionalCurrency'', RStr ''USD''),
      (''Vol'', RNum 0.20), (''RateDomestic'', RNum 0.02), (''RateForeign'', RNum 0.01),
      (''Expiry'', RNum 0.5), (''OptionType'', RStr ''Call'')]"

definition gbp_row :: raw_row where
  "gbp_row = valid_row(''NotionalCurrency'' \<mapsto> RStr ''GBP'')"

definition gbp_zero_vol_row :: raw_row where
  "gbp_zero_vol_row = gbp_row(''Vol'' \<mapsto> RNum 0)"

definition gbp_bad_bounds_row :: raw_row where
  "gbp_bad_bounds_row = gbp_row(''Vol'' \<mapsto> RNum 5.1, ''Expiry'' \<mapsto> RNum 0)"

definition no_parse :: "string \<Rightarrow> real option" where
  "no_parse s = None"

text \<open>
  Trades outside the engine's preconditions, result rows in the shape of the aggregator's
  tests, and the three sums of the rows that carry a given key.
\<close>

definition expired_trade :: FXOptionTrade where
  "expired_trade = eurusd_call\<lparr>time_to_maturity := 0\<rparr>"

definition zero_vol_trade :: FXOptionTrade where
  "zero_vol_trade = eurusd_call\<lparr>volatility := 0\<rparr>"

definition row_a :: ResultRow where
  "row_a = \<lparr> Status = ''Success'', Pair_col = ''EUR/USD'', Currency_col = ''USD'',
             PV_USD_col = 100, Delta_USD_col = 50, Vega_USD_col = 10 \<rparr>"

definition row_b :: ResultRow where
  "row_b = \<lparr> Status = ''Success'', Pair_col = ''USD/JPY'', Currency_col = ''JPY'',
             PV_USD_col = 200, Delta_USD_col = 25, Vega_USD_col = 20 \<rparr>"

definition row_c :: ResultRow where
  "row_c = \<lparr> Status = ''Failed'', Pair_col = ''EUR/USD'', Currency_col = ''USD'',
             PV_USD_col = 999, Delta_USD_col = 0, Vega_USD_col = 0 \<rparr>"

definition no_status_frame :: DataFrame where
  "no_status_frame = \<lparr> columns = [''PV_USD'', ''Delta_USD'', ''Vega_USD''], rows = [row_a] \<rparr>"

definition key_sums :: "(ResultRow \<Rightarrow> string) \<Rightarrow> ResultRow list \<Rightarrow> string \<Rightarrow> real \<times> real \<times> real" where
  "key_sums key rs k =
     (sum_list (map PV_USD_col (filter (\<lambda>r. key r = k) rs)),
      sum_list (map Delta_USD_col (filter (\<lambda>r. key r = k) rs)),
      sum_list (map Vega_USD_col (filter (\<lambda>r. key r = k) rs)))"



subsection \<open>Auxiliary functions for the range of the normal distribution function\<close>

text \<open>
  \<open>gauss_int x\<close> is the series of \<open>norm_cdf\<close> without its constant factor, the integral of
  \<open>exp (- t\<^sup>2 / 2)\<close> from 0 to \<open>x\<close>; \<open>gauss_coeff\<close> are its coefficients as a power series
  and \<open>cos_int k\<close> is the antiderivative of \<open>cos ^ k\<close> that vanishes at 0.
\<close>

definition gauss_int :: "real \<Rightarrow> real" where
  "gauss_int x = (\<Sum>n. cdf_term x n)"

definition gauss_coeff :: "nat \<Rightarrow> real" where
  "gauss_coeff k =
     (if even k then 0
      else (- 1) ^ ((k - 1) div 2) / (fact ((k - 1) div 2) * 2 ^ ((k - 1) div 2) * real k))"

fun cos_int :: "nat \<Rightarrow> real \<Rightarrow> real" where
  "cos_int 0 x = x"
| "cos_int (Suc 0) x = sin x"
| "cos_int (Suc (Suc k)) x =
     cos x ^ Suc k * sin x / real (k + 2) + real (k + 1) / real (k + 2) * cos_int k x"


section \<open>Properties of the normal distribution function\<close>

lemma cdf_term_abs:
  "\<bar>cdf_term x n\<bar> = \<bar>x\<bar> * (x\<^sup>2 / 2) ^ n / (fact n * real (2 * n + 1))"
proof -
  have e: "x ^ (2 * n + 1) = x * (x\<^sup>2) ^ n"
    by (simp add: power_mult)
  have nn: "\<bar>(x\<^sup>2) ^ n\<bar> = (x\<^sup>2) ^ n"
    by (rule abs_of_nonneg) simp
  have "\<bar>cdf_term x n\<bar> = \<bar>x * (x\<^sup>2) ^ n\<bar> / (fact n * 2 ^ n * real (2 * n + 1))"
    unfolding cdf_term_def e by (simp add: abs_mult del: power_mult_distrib)
  also have "\<dots> = \<bar>x\<bar> * (x\<^sup>2) ^ n / (fact n * 2 ^ n * real (2 * n + 1))"
    by (simp only: abs_mult nn)
  also have "\<dots> = \<bar>x\<bar> * ((x\<^sup>2) ^ n / 2 ^ n) / (fact n * real (2 * n + 1))"
    by simp
  finally show ?thesis
    by (simp only: power_divide)
qed

lemma cdf_term_summable: "summable (cdf_term x)"
proof (rule summable_comparison_test')
  show "summable (\<lambda>n. \<bar>x\<bar> * (inverse (fact n) * (x\<^sup>2 / 2) ^ n))"
    by (rule summable_mult) (rule summable_exp)
  fix n :: nat
  have "\<bar>x\<bar> * (x\<^sup>2 / 2) ^ n / (fact n * real (2 * n + 1)) \<le> \<bar>x\<bar> * (x\<^sup>2 / 2) ^ n / (fact n * 1)"
  proof (rule divide_left_mono)
    show "fact n * 1 \<le> fact n * real (2 * n + 1)"
      by (rule mult_left_mono) simp_all
    show "0 \<le> \<bar>x\<bar> * (x\<^sup>2 / 2) ^ n" by simp
    show "0 < fact n * real (2 * n + 1) * (fact n * 1)" by simp
  qed
  also have "\<dots> = \<bar>x\<bar> * (inverse (fact n) * (x\<^sup>2 / 2) ^ n)"
    by (simp only: mult_1_right divide_inverse mult.assoc mult.commute [of "inverse (fact n)"])
  finally show "norm (cdf_term x n) \<le> \<bar>x\<bar> * (inverse (fact n) * (x\<^sup>2 / 2) ^ n)"
    by (simp only: cdf_term_abs real_norm_def)
qed

lemma cdf_term_minus: "cdf_term (- x) n = - cdf_term x n"
  by (simp add: cdf_term_def)

lemma norm_cdf_minus: "norm_cdf (- x) = 1 - norm_cdf x"
  by (simp add: norm_cdf_def cdf_term_minus suminf_minus [OF cdf_term_summable])


section \<open>Properties of the pricing engine\<close>

lemma is_upper_not_slash: "is_upper c \<Longrightarrow> c \<noteq> CHR ''/''"
  by (auto simp add: is_upper_def less_eq_char_def)

lemma length_seven: "length s = 7 \<Longrightarrow> \<exists>a b c d e f g. s = [a, b, c, d, e, f, g]"
  by (auto simp add: length_Suc_conv eval_nat_numeral)

lemma unpack_pair_pattern:
  assumes "pair_pattern p"
  shows "unpack_pair p = Some (base_of p, quote_of p)"
proof -
  from assms obtain a b c d e f g where p: "p = [a, b, c, d, e, f, g]"
    using length_seven unfolding pair_pattern_def by blast
  from assms have "is_upper a" "is_upper b" "is_upper c" "d = CHR ''/''"
      "is_upper e" "is_upper f" "is_upper g"
    unfolding p pair_pattern_def by (simp_all add: eval_nat_numeral)
  then show ?thesis
    unfolding p unpack_pair_def base_of_def quote_of_def
    by (simp add: is_upper_not_slash eval_nat_numeral)
qed

lemma d1_d2_valid:
  "K \<noteq> 0 \<Longrightarrow> \<not> float_overflow (sigma\<^sup>2) \<Longrightarrow>
   calculate_d1_d2 S K T rd rf sigma = Inr (gk_d1 S K T rd rf sigma, gk_d2 S K T rd rf sigma)"
  by (simp add: calculate_d1_d2_def gk_d1_def gk_d2_def Let_def)

lemma bounded_volatility_no_overflow:
  assumes "0 < sigma" and "sigma \<le> 5"
  shows "\<not> float_overflow (sigma\<^sup>2)"
proof -
  from assms have "sigma\<^sup>2 \<le> 5\<^sup>2" by (intro power_mono) simp_all
  then have "\<bar>sigma\<^sup>2\<bar> \<le> 25" by simp
  moreover have "(25::real) < 2 ^ 1024 - 2 ^ 970" by simp
  ultimately show ?thesis by (simp add: float_overflow_def)
qed

lemma fx_rate_valid:
  "pair_pattern p \<Longrightarrow> S \<noteq> 0 \<Longrightarrow> fx_rate_to_usd p rep S = Inr (conversion_factor p rep S)"
  by (simp add: fx_rate_to_usd_def unpack_pair_pattern conversion_factor_def)

lemma quote_ccy_valid: "pair_pattern p \<Longrightarrow> quote_ccy_of p = quote_of p"
  by (simp add: quote_ccy_of_def unpack_pair_pattern)

lemma calculate_metrics_valid:
  assumes "valid_trade t"
  shows "calculate_metrics t rep =
    Inr \<lparr> PV_Native = gk_unit_price (option_type t) (spot_price t) (strike_price t)
                (time_to_maturity t) (domestic_rate t) (foreign_rate t) (volatility t) * notional t,
          Delta_Native = gk_unit_delta (option_type t) (spot_price t) (strike_price t)
                (time_to_maturity t) (domestic_rate t) (foreign_rate t) (volatility t) * notional t,
          Vega_Native = gk_unit_vega (spot_price t) (strike_price t)
                (time_to_maturity t) (domestic_rate t) (foreign_rate t) (volatility t) * notional t,
          Currency = quote_of (pair t),
          PV_USD = gk_unit_price (option_type t) (spot_price t) (strike_price t)
                (time_to_maturity t) (domestic_rate t) (foreign_rate t) (volatility t) * notional t
                * conversion_factor (pair t) rep (spot_price t),
          Delta_USD = gk_unit_delta (option_type t) (spot_price t) (strike_price t)
                (time_to_maturity t) (domestic_rate t) (foreign_rate t) (volatility t) * notional t
                * conversion_factor (pair t) rep (spot_price t),
          Vega_USD = gk_unit_vega (spot_price t) (strike_price t)
                (time_to_maturity t) (domestic_rate t) (foreign_rate t) (volatility t) * notional t
                * conversion_factor (pair t) rep (spot_price t) \<rparr>"
proof -
  from assms have K: "strike_price t \<noteq> 0" and S: "spot_price t \<noteq> 0" and p: "pair_pattern (pair t)"
    by (simp_all add: valid_trade_def)
  from assms have v: "\<not> float_overflow ((volatility t)\<^sup>2)"
    by (intro bounded_volatility_no_overflow) (simp_all add: valid_trade_def)
  show ?thesis
    by (cases "option_type t")
       (simp_all add: calculate_metrics_def Let_def d1_d2_valid [OF K v] fx_rate_valid [OF p S]
          quote_ccy_valid [OF p] gk_unit_vega_def)
qed

lemma eurusd_valid: "valid_trade eurusd_call"
  by (simp add: valid_trade_def eurusd_call_def pair_pattern_def ccy_pattern_def is_upper_def
      less_eq_char_def base_of_def quote_of_def)

lemma usdjpy_valid: "valid_trade usdjpy_call"
  by (simp add: valid_trade_def usdjpy_call_def pair_pattern_def ccy_pattern_def is_upper_def
      less_eq_char_def base_of_def quote_of_def)

section \<open>Pricing and normalization claims\<close>

text \<open>
  C1. On every valid trade record \<open>calculate_metrics\<close> returns, and its native price, delta
  and vega are the Garman-Kohlhagen unit metrics, as the specification writes them, scaled by
  the notional.
\<close>

theorem calculate_metrics_garman_kohlhagen:
  assumes "valid_trade t"
  shows "\<exists>m. calculate_metrics t rep = Inr m \<and>
    PV_Native m = gk_unit_price (option_type t) (spot_price t) (strike_price t)
        (time_to_maturity t) (domestic_rate t) (foreign_rate t) (volatility t) * notional t \<and>
    Delta_Native m = gk_unit_delta (option_type t) (spot_price t) (strike_price t)
        (time_to_maturity t) (domestic_rate t) (foreign_rate t) (volatility t) * notional t \<and>
    Vega_Native m = gk_unit_vega (spot_price t) (strike_price t)
        (time_to_maturity t) (domestic_rate t) (foreign_rate t) (volatility t) * notional t"
  by (simp add: calculate_metrics_valid [OF assms])

theorem calculate_metrics_garman_kohlhagen_witness:
  "valid_trade eurusd_call \<and>
   (\<exists>m. calculate_metrics eurusd_call ''USD'' = Inr m \<and>
    PV_Native m = gk_unit_price CALL 1.10 1.10 1 0.05 0.02 0.20 * 1000000 \<and>
    Delta_Native m = gk_unit_delta CALL 1.10 1.10 1 0.05 0.02 0.20 * 1000000 \<and>
    Vega_Native m = gk_unit_vega 1.10 1.10 1 0.05 0.02 0.20 * 1000000)"
  using calculate_metrics_garman_kohlhagen [OF eurusd_valid, of "''USD''"] eurusd_valid
  by (simp add: eurusd_call_def)

text \<open>
  C2. On every valid trade record each normalized metric is the native metric times a
  conversion factor: 1 when the quote currency is the reporting currency, 1 / spot when the
  base currency is and the quote currency is not, and 1 when neither leg is.
\<close>

theorem normalization_factor:
  assumes "valid_trade t"
  shows "\<exists>m. calculate_metrics t rep = Inr m \<and>
    PV_USD m = PV_Native m * conversion_factor (pair t) rep (spot_price t) \<and>
    Delta_USD m = Delta_Native m * conversion_factor (pair t) rep (spot_price t) \<and>
    Vega_USD m = Vega_Native m * conversion_factor (pair t) rep (spot_price t) \<and>
    (quote_of (pair t) = rep \<longrightarrow>
       PV_USD m = PV_Native m \<and> Delta_USD m = Delta_Native m \<and> Vega_USD m = Vega_Native m) \<and>
    (quote_of (pair t) \<noteq> rep \<and> base_of (pair t) = rep \<longrightarrow>
       PV_USD m = PV_Native m / spot_price t \<and> Delta_USD m = Delta_Native m / spot_price t \<and>
       Vega_USD m = Vega_Native m / spot_price t) \<and>
    (quote_of (pair t) \<noteq> rep \<and> base_of (pair t) \<noteq> rep \<longrightarrow>
       PV_USD m = PV_Native m \<and> Delta_USD m = Delta_Native m \<and> Vega_USD m = Vega_Native m)"
  by (simp add: calculate_metrics_valid [OF assms] conversion_factor_def)

theorem normalization_factor_witness:
  "valid_trade usdjpy_call \<and> quote_of (pair usdjpy_call) \<noteq> ''USD'' \<and>
   base_of (pair usdjpy_call) = ''USD'' \<and>
   (\<exists>m. calculate_metrics usdjpy_call ''USD'' = Inr m \<and> PV_USD m = PV_Native m / 100)"
proof -
  have q: "quote_of (pair usdjpy_call) \<noteq> ''USD''" "base_of (pair usdjpy_call) = ''USD''"
      "spot_price usdjpy_call = 100"
    by (simp_all add: usdjpy_call_def quote_of_def base_of_def)
  from normalization_factor [OF usdjpy_valid, of "''USD''"] q usdjpy_valid
  show ?thesis by auto
qed

text \<open>
  C5. Put-call parity: for a valid call and the put that differs from it in the option kind
  only, the native price of the call minus that of the put is
  \<open>notional * (S * exp (- r_f * T) - K * exp (- r_d * T))\<close>.
\<close>

theorem put_call_parity:
  assumes "valid_trade tc" and "option_type tc = CALL"
  shows "\<exists>mc mp. calculate_metrics tc rep = Inr mc \<and>
    calculate_metrics (tc\<lparr>option_type := PUT\<rparr>) rep = Inr mp \<and>
    PV_Native mc - PV_Native mp =
      notional tc * (spot_price tc * exp (- foreign_rate tc * time_to_maturity tc)
                     - strike_price tc * exp (- domestic_rate tc * time_to_maturity tc))"
proof -
  have vp: "valid_trade (tc\<lparr>option_type := PUT\<rparr>)"
    using assms(1) by (simp add: valid_trade_def)
  show ?thesis
    by (simp add: calculate_metrics_valid [OF assms(1)] calculate_metrics_valid [OF vp] assms(2)
        norm_cdf_minus algebra_simps)
qed

theorem put_call_parity_witness:
  "valid_trade eurusd_call \<and> option_type eurusd_call = CALL \<and>
   (\<exists>mc mp. calculate_metrics eurusd_call ''USD'' = Inr mc \<and>
    calculate_metrics (eurusd_call\<lparr>option_type := PUT\<rparr>) ''USD'' = Inr mp \<and>
    PV_Native mc - PV_Native mp = 1000000 * (1.10 * exp (- 0.02) - 1.10 * exp (- 0.05)))"
proof -
  have c: "option_type eurusd_call = CALL" by (simp add: eurusd_call_def)
  from put_call_parity [OF eurusd_valid c, of "''USD''"] eurusd_valid c
  show ?thesis by (simp add: eurusd_call_def)
qed

text \<open>
  C10. One factor, fixed by the pair, the reporting currency and the spot price alone,
  converts all three metrics of every valid trade with that pair and spot, and the
  \<open>Currency\<close> field is the quote leg of the pair.
\<close>

theorem common_conversion_factor:
  "\<exists>f. \<forall>t. valid_trade t \<and> pair t = p \<and> spot_price t = S \<longrightarrow>
     (\<exists>m. calculate_metrics t rep = Inr m \<and>
        PV_USD m = f * PV_Native m \<and> Delta_USD m = f * Delta_Native m \<and>
        Vega_USD m = f * Vega_Native m \<and> Currency m = quote_of p)"
proof (rule exI [of _ "conversion_factor p rep S"], rule allI, rule impI)
  fix t assume a: "valid_trade t \<and> pair t = p \<and> spot_price t = S"
  then have v: "valid_trade t" by simp
  from a show "\<exists>m. calculate_metrics t rep = Inr m \<and>
        PV_USD m = conversion_factor p rep S * PV_Native m \<and>
        Delta_USD m = conversion_factor p rep S * Delta_Native m \<and>
        Vega_USD m = conversion_factor p rep S * Vega_Native m \<and> Currency m = quote_of p"
    by (simp add: calculate_metrics_valid [OF v])
qed

theorem common_conversion_factor_witness:
  "valid_trade usdjpy_call \<and>
   (\<exists>f m. calculate_metrics usdjpy_call ''USD'' = Inr m \<and>
      PV_USD m = f * PV_Native m \<and> Delta_USD m = f * Delta_Native m \<and>
      Vega_USD m = f * Vega_Native m \<and> Currency m = ''JPY'')"
proof -
  from common_conversion_factor [of "''USD/JPY''" 100 "''USD''"]
  obtain f where f: "\<forall>t. valid_trade t \<and> pair t = ''USD/JPY'' \<and> spot_price t = 100 \<longrightarrow>
     (\<exists>m. calculate_metrics t ''USD'' = Inr m \<and>
        PV_USD m = f * PV_Native m \<and> Delta_USD m = f * Delta_Native m \<and>
        Vega_USD m = f * Vega_Native m \<and> Currency m = quote_of ''USD/JPY'')" by blast
  have "valid_trade usdjpy_call \<and> pair usdjpy_call = ''USD/JPY'' \<and> spot_price usdjpy_call = 100"
    using usdjpy_valid by (simp add: usdjpy_call_def)
  with f have "\<exists>m. calculate_metrics usdjpy_call ''USD'' = Inr m \<and>
        PV_USD m = f * PV_Native m \<and> Delta_USD m = f * Delta_Native m \<and>
        Vega_USD m = f * Vega_Native m \<and> Currency m = quote_of ''USD/JPY''" by blast
  then show ?thesis using usdjpy_valid by (auto simp add: quote_of_def)
qed

section \<open>Properties of validation\<close>

lemma err_of_Nil: "err_of r = [] \<Longrightarrow> \<exists>x. r = Inr x"
  by (cases r) simp_all

lemma str_field_Inr: "str_field row a n pat = Inr s \<Longrightarrow> pat s"
  by (auto simp add: str_field_def split: option.splits raw.splits if_splits)

lemma float_field_gt: "float_field parse row a n (Some lo) le = Inr x \<Longrightarrow> lo < x"
  by (auto simp add: float_field_def split: option.splits raw.splits if_splits sum.splits)

lemma float_field_le: "float_field parse row a n gt (Some hi) = Inr x \<Longrightarrow> x \<le> hi"
  by (auto simp add: float_field_def split: option.splits raw.splits if_splits sum.splits)

lemma validate_fields_Inl:
  "field_errors parse row \<noteq> [] \<Longrightarrow> validate_fields parse row = Inl (field_errors parse row)"
  by (simp add: validate_fields_def field_errors_def Let_def)

lemma validate_fields_Inr_iff:
  "(\<exists>t. validate_fields parse row = Inr t) \<longleftrightarrow> field_errors parse row = []"
  by (simp add: validate_fields_def field_errors_def Let_def)

lemma validate_fields_bounds:
  assumes "validate_fields parse row = Inr t"
  shows "pair_pattern (pair t)" "0 < spot_price t" "0 < strike_price t" "0 < notional t"
    "ccy_pattern (notional_currency t)" "0 < volatility t" "volatility t \<le> 5"
    "0 < time_to_maturity t" "time_to_maturity t \<le> 100"
    "str_field row ''Underlying'' ''pair'' pair_pattern = Inr (pair t)"
    "str_field row ''NotionalCurrency'' ''notional_currency'' ccy_pattern =
       Inr (notional_currency t)"
proof -
  from assms have e: "field_errors parse row = []"
    using validate_fields_Inr_iff by blast
  have z: "err_of (str_field row ''Underlying'' ''pair'' pair_pattern) = []"
    "err_of (float_field parse row ''Spot'' ''spot_price'' (Some 0) None) = []"
    "err_of (float_field parse row ''Strike'' ''strike_price'' (Some 0) None) = []"
    "err_of (float_field parse row ''Notional'' ''notional'' (Some 0) None) = []"
    "err_of (str_field row ''NotionalCurrency'' ''notional_currency'' ccy_pattern) = []"
    "err_of (float_field parse row ''Vol'' ''volatility'' (Some 0) (Some 5)) = []"
    "err_of (float_field parse row ''Expiry'' ''time_to_maturity'' (Some 0) (Some 100)) = []"
    using e unfolding field_errors_def by simp_all
  from err_of_Nil [OF z(1)] obtain x2 where
    x2: "str_field row ''Underlying'' ''pair'' pair_pattern = Inr x2" ..
  from err_of_Nil [OF z(2)] obtain x3 where
    x3: "float_field parse row ''Spot'' ''spot_price'' (Some 0) None = Inr x3" ..
  from err_of_Nil [OF z(3)] obtain x4 where
    x4: "float_field parse row ''Strike'' ''strike_price'' (Some 0) None = Inr x4" ..
  from err_of_Nil [OF z(4)] obtain x5 where
    x5: "float_field parse row ''Notional'' ''notional'' (Some 0) None = Inr x5" ..
  from err_of_Nil [OF z(5)] obtain x6 where
    x6: "str_field row ''NotionalCurrency'' ''notional_currency'' ccy_pattern = Inr x6" ..
  from err_of_Nil [OF z(6)] obtain x7 where
    x7: "float_field parse row ''Vol'' ''volatility'' (Some 0) (Some 5) = Inr x7" ..
  from err_of_Nil [OF z(7)] obtain x10 where
    x10: "float_field parse row ''Expiry'' ''time_to_maturity'' (Some 0) (Some 100) = Inr x10" ..
  have d: "validate_fields parse row =
     Inr \<lparr> trade_id = projr (str_field row ''TradeID'' ''trade_id'' (\<lambda>s. True)),
           pair = x2, spot_price = x3, strike_price = x4, notional = x5,
           notional_currency = x6, volatility = x7,
           domestic_rate = projr (float_field parse row ''RateDomestic'' ''domestic_rate'' None None),
           foreign_rate = projr (float_field parse row ''RateForeign'' ''foreign_rate'' None None),
           time_to_maturity = x10,
           option_type = projr (enum_field row ''OptionType'' ''option_type'') \<rparr>"
    using e unfolding validate_fields_def field_errors_def Let_def
    by (simp add: x2 x3 x4 x5 x6 x7 x10)
  from d assms have t: "pair t = x2" "spot_price t = x3" "strike_price t = x4" "notional t = x5"
    "notional_currency t = x6" "volatility t = x7" "time_to_maturity t = x10"
    by auto
  show "pair_pattern (pair t)" unfolding t using x2 by (rule str_field_Inr)
  show "0 < spot_price t" unfolding t using x3 by (rule float_field_gt)
  show "0 < strike_price t" unfolding t using x4 by (rule float_field_gt)
  show "0 < notional t" unfolding t using x5 by (rule float_field_gt)
  show "ccy_pattern (notional_currency t)" unfolding t using x6 by (rule str_field_Inr)
  show "0 < volatility t" unfolding t using x7 by (rule float_field_gt)
  show "volatility t \<le> 5" unfolding t using float_field_le [OF x7] by simp
  show "0 < time_to_maturity t" unfolding t using x10 by (rule float_field_gt)
  show "time_to_maturity t \<le> 100" unfolding t using float_field_le [OF x10] by simp
  show "str_field row ''Underlying'' ''pair'' pair_pattern = Inr (pair t)"
    unfolding t by (rule x2)
  show "str_field row ''NotionalCurrency'' ''notional_currency'' ccy_pattern =
       Inr (notional_currency t)"
    unfolding t by (rule x6)
qed

lemma pair_pattern_slash: "pair_pattern p \<Longrightarrow> CHR ''/'' \<in> set p"
  using nth_mem [of 3 p] by (auto simp add: pair_pattern_def)

lemma check_currency_valid:
  assumes "pair_pattern (pair t)"
  shows "check_currency_consistency t =
     (if notional_currency t \<notin> {base_of (pair t), quote_of (pair t)}
      then Inl (ValueError (currency_message (notional_currency t) (pair t)
                  (base_of (pair t)) (quote_of (pair t))))
      else Inr t)"
  by (simp add: check_currency_consistency_def pair_pattern_slash [OF assms]
      unpack_pair_pattern [OF assms])

lemma validate_Inr:
  assumes "validate parse row = Inr t"
  shows "valid_trade t"
proof -
  from assms obtain t0 where f: "validate_fields parse row = Inr t0"
    and c: "check_currency_consistency t0 = Inr t"
    by (auto simp add: validate_def split: sum.splits)
  note b = validate_fields_bounds [OF f]
  from c have "t = t0" and "notional_currency t0 \<in> {base_of (pair t0), quote_of (pair t0)}"
    unfolding check_currency_valid [OF b(1)] by (auto split: if_splits)
  with b show ?thesis by (simp add: valid_trade_def)
qed


lemmas field_eval = field_errors_def str_field_def float_field_def enum_field_def
  lookup_field_def pair_pattern_def ccy_pattern_def is_upper_def less_eq_char_def no_parse_def

lemma gbp_zero_vol_errors: "field_errors no_parse gbp_zero_vol_row = [GreaterThan ''Vol'' 0]"
  by (simp add: field_eval gbp_zero_vol_row_def gbp_row_def valid_row_def)

lemma gbp_bad_bounds_errors:
  "field_errors no_parse gbp_bad_bounds_row = [LessThanEqual ''Vol'' 5, GreaterThan ''Expiry'' 0]"
  by (simp add: field_eval gbp_bad_bounds_row_def gbp_row_def valid_row_def)

lemma gbp_errors: "field_errors no_parse gbp_row = []"
  by (simp add: field_eval gbp_row_def valid_row_def)

lemma valid_row_errors: "field_errors no_parse valid_row = []"
  by (simp add: field_eval valid_row_def)


section \<open>Validation claims\<close>

lemma validate_after_fields:
  assumes "validate_fields parse row = Inr t"
  shows "validate parse row =
     (if notional_currency t \<notin> {base_of (pair t), quote_of (pair t)}
      then Inl [ValueError (currency_message (notional_currency t) (pair t)
                  (base_of (pair t)) (quote_of (pair t)))]
      else Inr t)"
  by (simp add: validate_def assms check_currency_valid [OF validate_fields_bounds(1) [OF assms]])

lemma validate_field_errors:
  "field_errors parse row \<noteq> [] \<Longrightarrow> validate parse row = Inl (field_errors parse row)"
  by (simp add: validate_def validate_fields_Inl)

lemma message_names:
  "sublist (quoted nc) (currency_message nc p b q)"
  "sublist (quoted b) (currency_message nc p b q)"
  "sublist (quoted q) (currency_message nc p b q)"
proof -
  show "sublist (quoted nc) (currency_message nc p b q)"
    unfolding sublist_def currency_message_def by (intro exI) (rule refl)
  have "currency_message nc p b q =
      (''Notional Currency '' @ quoted nc @ '' is invalid for Pair '' @ quoted p @
       ''. Must be either '') @ quoted b @ ('' or '' @ quoted q @ ''.'')"
    by (simp add: currency_message_def)
  then show "sublist (quoted b) (currency_message nc p b q)"
    unfolding sublist_def by blast
  have "currency_message nc p b q =
      (''Notional Currency '' @ quoted nc @ '' is invalid for Pair '' @ quoted p @
       ''. Must be either '' @ quoted b @ '' or '') @ quoted q @ ''.''"
    by (simp add: currency_message_def)
  then show "sublist (quoted q) (currency_message nc p b q)"
    unfolding sublist_def by blast
qed

text \<open>
  C7 (amended). When every field of a row passes its own check, so that the pair is well
  formed, and the notional currency is neither leg of the pair, construction fails with the
  single message of the model validator, which names the notional currency and both legs;
  and every record that construction returns has its notional currency among the two legs.
\<close>

theorem cross_field_rejection:
  "(validate_fields parse row = Inr t \<and>
      notional_currency t \<notin> {base_of (pair t), quote_of (pair t)} \<longrightarrow>
      (\<exists>msg. validate parse row = Inl [ValueError msg] \<and>
         sublist (quoted (notional_currency t)) msg \<and>
         sublist (quoted (base_of (pair t))) msg \<and>
         sublist (quoted (quote_of (pair t))) msg)) \<and>
   (validate parse row = Inr t \<longrightarrow>
      notional_currency t \<in> {base_of (pair t), quote_of (pair t)})"
proof (intro conjI impI)
  assume a: "validate_fields parse row = Inr t \<and>
      notional_currency t \<notin> {base_of (pair t), quote_of (pair t)}"
  then have f: "validate_fields parse row = Inr t" by simp
  from a show "\<exists>msg. validate parse row = Inl [ValueError msg] \<and>
         sublist (quoted (notional_currency t)) msg \<and>
         sublist (quoted (base_of (pair t))) msg \<and>
         sublist (quoted (quote_of (pair t))) msg"
    unfolding validate_after_fields [OF f] using message_names by auto
next
  assume "validate parse row = Inr t"
  then have "valid_trade t" by (rule validate_Inr)
  then show "notional_currency t \<in> {base_of (pair t), quote_of (pair t)}"
    by (simp add: valid_trade_def)
qed

lemma gbp_row_fields:
  "\<exists>t. validate_fields no_parse gbp_row = Inr t \<and> pair t = ''EUR/USD'' \<and>
     notional_currency t = ''GBP''"
proof -
  from gbp_errors obtain t where t: "validate_fields no_parse gbp_row = Inr t"
    using validate_fields_Inr_iff by blast
  have "str_field gbp_row ''Underlying'' ''pair'' pair_pattern = Inr ''EUR/USD''"
    "str_field gbp_row ''NotionalCurrency'' ''notional_currency'' ccy_pattern = Inr ''GBP''"
    by (simp_all add: field_eval gbp_row_def valid_row_def)
  with validate_fields_bounds(10,11) [OF t] have "pair t = ''EUR/USD''" "notional_currency t = ''GBP''"
    by simp_all
  with t show ?thesis by blast
qed

lemma valid_row_validates: "\<exists>t. validate no_parse valid_row = Inr t"
proof -
  from valid_row_errors obtain t where t: "validate_fields no_parse valid_row = Inr t"
    using validate_fields_Inr_iff by blast
  have "str_field valid_row ''Underlying'' ''pair'' pair_pattern = Inr ''EUR/USD''"
    "str_field valid_row ''NotionalCurrency'' ''notional_currency'' ccy_pattern = Inr ''USD''"
    by (simp_all add: field_eval valid_row_def)
  with validate_fields_bounds(10,11) [OF t] have "pair t = ''EUR/USD''" "notional_currency t = ''USD''"
    by simp_all
  then show ?thesis
    unfolding validate_after_fields [OF t] by (simp add: base_of_def quote_of_def)
qed

theorem cross_field_rejection_witness:
  "(\<exists>t. validate_fields no_parse gbp_row = Inr t \<and>
     notional_currency t \<notin> {base_of (pair t), quote_of (pair t)} \<and>
     (\<exists>msg. validate no_parse gbp_row = Inl [ValueError msg] \<and>
        sublist (quoted ''GBP'') msg \<and> sublist (quoted ''EUR'') msg \<and>
        sublist (quoted ''USD'') msg)) \<and>
   (\<exists>t. validate no_parse valid_row = Inr t \<and>
     notional_currency t \<in> {base_of (pair t), quote_of (pair t)})"
proof
  from gbp_row_fields obtain t where t: "validate_fields no_parse gbp_row = Inr t"
    "pair t = ''EUR/USD''" "notional_currency t = ''GBP''" by blast
  then have n: "notional_currency t \<notin> {base_of (pair t), quote_of (pair t)}"
    by (simp add: base_of_def quote_of_def)
  from cross_field_rejection [of no_parse gbp_row t] t(1) n
  have "\<exists>msg. validate no_parse gbp_row = Inl [ValueError msg] \<and>
         sublist (quoted (notional_currency t)) msg \<and>
         sublist (quoted (base_of (pair t))) msg \<and>
         sublist (quoted (quote_of (pair t))) msg" by blast
  then have "\<exists>msg. validate no_parse gbp_row = Inl [ValueError msg] \<and>
        sublist (quoted ''GBP'') msg \<and> sublist (quoted ''EUR'') msg \<and>
        sublist (quoted ''USD'') msg"
    by (simp add: t base_of_def quote_of_def)
  with t(1) n show "\<exists>t. validate_fields no_parse gbp_row = Inr t \<and>
     notional_currency t \<notin> {base_of (pair t), quote_of (pair t)} \<and>
     (\<exists>msg. validate no_parse gbp_row = Inl [ValueError msg] \<and>
        sublist (quoted ''GBP'') msg \<and> sublist (quoted ''EUR'') msg \<and>
        sublist (quoted ''USD'') msg)" by blast
next
  from valid_row_validates obtain t where t: "validate no_parse valid_row = Inr t" ..
  with cross_field_rejection [of no_parse valid_row t]
  show "\<exists>t. validate no_parse valid_row = Inr t \<and>
     notional_currency t \<in> {base_of (pair t), quote_of (pair t)}" by blast
qed

text \<open>
  As stated for every row with a well-formed pair, the claim fails: with a zero volatility
  besides, the only error is the bound on \<open>Vol\<close>, and no message names a currency.
\<close>

theorem cross_field_rejection_counterexample:
  "gbp_zero_vol_row ''Underlying'' = Some (RStr ''EUR/USD'') \<and> pair_pattern ''EUR/USD'' \<and>
   gbp_zero_vol_row ''NotionalCurrency'' = Some (RStr ''GBP'') \<and>
   ''GBP'' \<notin> {base_of ''EUR/USD'', quote_of ''EUR/USD''} \<and>
   validate no_parse gbp_zero_vol_row = Inl [GreaterThan ''Vol'' 0]"
proof -
  have "validate no_parse gbp_zero_vol_row = Inl [GreaterThan ''Vol'' 0]"
    using validate_field_errors [of no_parse gbp_zero_vol_row]
    by (simp add: gbp_zero_vol_errors)
  then show ?thesis
    by (simp add: gbp_zero_vol_row_def gbp_row_def valid_row_def pair_pattern_def is_upper_def
        less_eq_char_def base_of_def quote_of_def)
qed

text \<open>
  C6 (amended). Construction yields a record that satisfies every constraint, or fails with
  a non-empty list of errors and no record. When some field fails its own check, the list
  is the errors of all failing fields, in field order, and the cross-field check is not run;
  the cross-field error is reported, alone, only when every field has passed.
\<close>

theorem validation_all_or_nothing:
  "(\<exists>t. validate parse row = Inr t \<and> valid_trade t \<and> field_errors parse row = []) \<or>
   (\<exists>errs. validate parse row = Inl errs \<and> errs \<noteq> [] \<and>
      (field_errors parse row \<noteq> [] \<longrightarrow> errs = field_errors parse row) \<and>
      (field_errors parse row = [] \<longrightarrow> (\<exists>msg. errs = [ValueError msg])))"
proof (cases "field_errors parse row = []")
  case False
  then show ?thesis by (simp add: validate_field_errors)
next
  case True
  then obtain t where t: "validate_fields parse row = Inr t"
    using validate_fields_Inr_iff by blast
  show ?thesis
  proof (cases "notional_currency t \<in> {base_of (pair t), quote_of (pair t)}")
    case True
    then have v: "validate parse row = Inr t"
      unfolding validate_after_fields [OF t] by simp
    with validate_Inr [OF v] \<open>field_errors parse row = []\<close> show ?thesis by simp
  next
    case False
    then show ?thesis
      unfolding validate_after_fields [OF t] using \<open>field_errors parse row = []\<close> by simp
  qed
qed

theorem validation_all_or_nothing_witness:
  "field_errors no_parse gbp_bad_bounds_row \<noteq> [] \<and>
   validate no_parse gbp_bad_bounds_row = Inl (field_errors no_parse gbp_bad_bounds_row)"
  using validation_all_or_nothing [of no_parse gbp_bad_bounds_row]
  by (auto simp add: gbp_bad_bounds_errors)

text \<open>
  The cross-field check is not gated on the pair alone: with a well-formed pair, a foreign
  notional currency and two fields out of bounds, the two bounds are reported and the
  currency mismatch is not.
\<close>

theorem validation_all_or_nothing_counterexample:
  "gbp_bad_bounds_row ''Underlying'' = Some (RStr ''EUR/USD'') \<and> pair_pattern ''EUR/USD'' \<and>
   gbp_bad_bounds_row ''NotionalCurrency'' = Some (RStr ''GBP'') \<and>
   ''GBP'' \<notin> {base_of ''EUR/USD'', quote_of ''EUR/USD''} \<and>
   validate no_parse gbp_bad_bounds_row =
     Inl [LessThanEqual ''Vol'' 5, GreaterThan ''Expiry'' 0]"
proof -
  have "validate no_parse gbp_bad_bounds_row =
     Inl [LessThanEqual ''Vol'' 5, GreaterThan ''Expiry'' 0]"
    using validate_field_errors [of no_parse gbp_bad_bounds_row]
    by (simp add: gbp_bad_bounds_errors)
  then show ?thesis
    by (simp add: gbp_bad_bounds_row_def gbp_row_def valid_row_def pair_pattern_def is_upper_def
        less_eq_char_def base_of_def quote_of_def)
qed

section \<open>Engine preconditions\<close>

lemma calculate_metrics_returns:
  assumes "strike_price t \<noteq> 0" and "spot_price t \<noteq> 0" and "pair_pattern (pair t)"
    and "\<not> float_overflow ((volatility t)\<^sup>2)"
  shows "\<exists>m. calculate_metrics t rep = Inr m"
  by (simp add: calculate_metrics_def Let_def d1_d2_valid [OF assms(1) assms(4)]
      fx_rate_valid [OF assms(3) assms(2)])

lemma calculate_metrics_raises:
  "isl (calculate_metrics t rep) \<longleftrightarrow>
     strike_price t = 0 \<or> float_overflow ((volatility t)\<^sup>2) \<or>
     isl (fx_rate_to_usd (pair t) rep (spot_price t))"
  by (simp add: calculate_metrics_def calculate_d1_d2_def Let_def split: sum.splits)

text \<open>
  C3 (amended). The engine does not guard the maturity or the sign of the volatility. It
  raises exactly when the strike is zero, when the square of the volatility overflows, or
  when the conversion step raises (an unreadable pair, or a zero spot in the branch
  \<open>1 / spot\<close>); none of these is a \<open>DomainError\<close>, and none depends on the maturity or on the
  volatility being positive. So on every trade with a non-zero strike, a non-zero spot, a
  well-formed pair and a volatility whose square is in range, it returns a metrics record,
  whatever the maturity and the sign of the volatility. The two preconditions are enforced
  upstream: every record that validation constructs has a positive maturity and a positive
  volatility.
\<close>

theorem engine_has_no_guard:
  "(isl (calculate_metrics t rep) \<longleftrightarrow>
      strike_price t = 0 \<or> float_overflow ((volatility t)\<^sup>2) \<or>
      isl (fx_rate_to_usd (pair t) rep (spot_price t))) \<and>
   (strike_price t \<noteq> 0 \<and> spot_price t \<noteq> 0 \<and> pair_pattern (pair t) \<and>
    \<not> float_overflow ((volatility t)\<^sup>2) \<longrightarrow>
      (\<exists>m. calculate_metrics t rep = Inr m)) \<and>
   (validate parse row = Inr t \<longrightarrow> 0 < time_to_maturity t \<and> 0 < volatility t)"
proof (intro conjI impI)
  show "isl (calculate_metrics t rep) \<longleftrightarrow>
      strike_price t = 0 \<or> float_overflow ((volatility t)\<^sup>2) \<or>
      isl (fx_rate_to_usd (pair t) rep (spot_price t))"
    by (rule calculate_metrics_raises)
next
  assume "strike_price t \<noteq> 0 \<and> spot_price t \<noteq> 0 \<and> pair_pattern (pair t) \<and>
    \<not> float_overflow ((volatility t)\<^sup>2)"
  then show "\<exists>m. calculate_metrics t rep = Inr m"
    using calculate_metrics_returns by blast
next
  assume "validate parse row = Inr t"
  then have "valid_trade t" by (rule validate_Inr)
  then show "0 < time_to_maturity t" "0 < volatility t"
    by (simp_all add: valid_trade_def)
qed

lemma eurusd_pair: "pair_pattern ''EUR/USD''"
  by (simp add: pair_pattern_def is_upper_def less_eq_char_def)

lemma zero_no_overflow: "\<not> float_overflow 0"
  by (simp add: float_overflow_def)

lemma eurusd_vol_no_overflow: "\<not> float_overflow ((volatility eurusd_call)\<^sup>2)"
  by (rule bounded_volatility_no_overflow) (simp_all add: eurusd_call_def)

theorem engine_has_no_guard_witness:
  "(strike_price expired_trade \<noteq> 0 \<and> spot_price expired_trade \<noteq> 0 \<and>
    pair_pattern (pair expired_trade) \<and>
    \<not> float_overflow ((volatility expired_trade)\<^sup>2) \<and>
    time_to_maturity expired_trade \<le> 0 \<and>
    (\<exists>m. calculate_metrics expired_trade ''USD'' = Inr m)) \<and>
   (\<exists>t. validate no_parse valid_row = Inr t \<and> 0 < time_to_maturity t \<and> 0 < volatility t)"
proof
  have v: "\<not> float_overflow ((volatility expired_trade)\<^sup>2)"
    using eurusd_vol_no_overflow by (simp add: expired_trade_def)
  have h: "strike_price expired_trade \<noteq> 0 \<and> spot_price expired_trade \<noteq> 0 \<and>
    pair_pattern (pair expired_trade)"
    by (simp add: expired_trade_def eurusd_call_def eurusd_pair)
  moreover have "time_to_maturity expired_trade \<le> 0"
    by (simp add: expired_trade_def)
  moreover from engine_has_no_guard [of expired_trade "''USD''"] h v
  have "\<exists>m. calculate_metrics expired_trade ''USD'' = Inr m" by blast
  ultimately show "strike_price expired_trade \<noteq> 0 \<and> spot_price expired_trade \<noteq> 0 \<and>
    pair_pattern (pair expired_trade) \<and>
    \<not> float_overflow ((volatility expired_trade)\<^sup>2) \<and>
    time_to_maturity expired_trade \<le> 0 \<and>
    (\<exists>m. calculate_metrics expired_trade ''USD'' = Inr m)" using v by blast
next
  from valid_row_validates obtain t where t: "validate no_parse valid_row = Inr t" ..
  with engine_has_no_guard [of t _ no_parse valid_row]
  show "\<exists>t. validate no_parse valid_row = Inr t \<and> 0 < time_to_maturity t \<and> 0 < volatility t"
    by blast
qed

text \<open>
  Called on a trade with maturity 0, or with volatility 0, the engine returns a metrics
  record and no error. (The numbers in that record are those of the floating-point
  operations on a zero divisor, which the real-number embedding does not describe.)
\<close>

theorem domain_error_counterexample:
  "time_to_maturity expired_trade \<le> 0 \<and> \<not> isl (calculate_metrics expired_trade ''USD'') \<and>
   volatility zero_vol_trade \<le> 0 \<and> \<not> isl (calculate_metrics zero_vol_trade ''USD'')"
proof -
  have "\<not> float_overflow ((volatility expired_trade)\<^sup>2)"
    using eurusd_vol_no_overflow by (simp add: expired_trade_def)
  then have "\<exists>m. calculate_metrics expired_trade ''USD'' = Inr m"
    by (intro calculate_metrics_returns)
       (simp_all add: expired_trade_def eurusd_call_def eurusd_pair)
  moreover have "\<not> float_overflow ((volatility zero_vol_trade)\<^sup>2)"
    using zero_no_overflow by (simp add: zero_vol_trade_def)
  then have "\<exists>m. calculate_metrics zero_vol_trade ''USD'' = Inr m"
    by (intro calculate_metrics_returns)
       (simp_all add: zero_vol_trade_def eurusd_call_def eurusd_pair)
  ultimately show ?thesis
    by (auto simp add: expired_trade_def zero_vol_trade_def)
qed

section \<open>Aggregation claims\<close>

lemma missing_none:
  "set cs \<subseteq> set (columns df) \<Longrightarrow> missing_column df cs = None"
  by (auto simp add: missing_column_def find_None_iff)

text \<open>
  C8 (amended). On a frame without rows (or without columns), and on a frame without a
  \<open>Status\<close> column, the totals are the empty table; on a frame that has rows and a
  \<open>Status\<close> column but no row tagged \<open>Success\<close> they are the sentinel row
  \<open>No Valid Trades\<close>. Neither is a row of numeric zeros.
\<close>

theorem empty_batch_totals:
  "(empty_frame df \<or> ''Status'' \<notin> set (columns df) \<longrightarrow>
      calculate_portfolio_totals df = Inr []) \<and>
   (\<not> empty_frame df \<and> ''Status'' \<in> set (columns df) \<and> success_rows df = [] \<longrightarrow>
      calculate_portfolio_totals df = Inr [(''Status'', Str ''No Valid Trades'')])"
  by (simp add: calculate_portfolio_totals_def Let_def)

lemma result_columns_set:
  "set [''Status'', ''Pair'', ''Currency'', ''PV_USD'', ''Delta_USD'', ''Vega_USD'']
     \<subseteq> set result_columns"
  by (simp add: result_columns_def)

theorem empty_batch_totals_witness:
  "empty_frame (prepare_trade_report []) \<and>
   calculate_portfolio_totals (prepare_trade_report []) = Inr [] \<and>
   \<not> empty_frame no_status_frame \<and> ''Status'' \<notin> set (columns no_status_frame) \<and>
   calculate_portfolio_totals no_status_frame = Inr [] \<and>
   \<not> empty_frame (prepare_trade_report [row_c]) \<and>
   ''Status'' \<in> set (columns (prepare_trade_report [row_c])) \<and>
   success_rows (prepare_trade_report [row_c]) = [] \<and>
   calculate_portfolio_totals (prepare_trade_report [row_c]) =
     Inr [(''Status'', Str ''No Valid Trades'')]"
proof -
  have a: "empty_frame (prepare_trade_report [])"
    by (simp add: empty_frame_def prepare_trade_report_def)
  have n: "\<not> empty_frame no_status_frame \<and> ''Status'' \<notin> set (columns no_status_frame)"
    by (simp add: empty_frame_def no_status_frame_def)
  have b: "\<not> empty_frame (prepare_trade_report [row_c]) \<and>
     ''Status'' \<in> set (columns (prepare_trade_report [row_c])) \<and>
     success_rows (prepare_trade_report [row_c]) = []"
    by (simp add: empty_frame_def prepare_trade_report_def result_columns_def success_rows_def
        row_c_def)
  from empty_batch_totals [of "prepare_trade_report []"] a
    empty_batch_totals [of no_status_frame] n
    empty_batch_totals [of "prepare_trade_report [row_c]"] b
  show ?thesis by blast
qed

text \<open>
  With no rows at all the result is the empty table, not the sentinel row.
\<close>

theorem empty_batch_totals_counterexample:
  "rows (prepare_trade_report []) = [] \<and>
   calculate_portfolio_totals (prepare_trade_report []) = Inr [] \<and>
   calculate_portfolio_totals (prepare_trade_report []) \<noteq>
     Inr [(''Status'', Str ''No Valid Trades'')]"
  by (simp add: calculate_portfolio_totals_def prepare_trade_report_def empty_frame_def)

lemma map_of_group_sum:
  "map_of (group_sum key rs) k =
     (if k \<in> key ` set rs then Some (key_sums key rs k) else None)"
proof -
  have "map_of (map (\<lambda>k. (k, key_sums key rs k)) ks) k =
      (if k \<in> set ks then Some (key_sums key rs k) else None)" for ks
    by (induction ks) auto
  from this [of "sort (remdups (map key rs))"] show ?thesis
    by (simp add: group_sum_def key_sums_def Let_def)
qed

lemma distinct_group_sum: "distinct (map fst (group_sum key rs))"
proof -
  have "map fst (group_sum key rs) = sort (remdups (map key rs))"
    by (simp add: group_sum_def Let_def comp_def)
  then show ?thesis by simp
qed

lemma group_sum_Nil: "group_sum key [] = []"
  by (simp add: group_sum_def)

lemma group_risk_eq:
  assumes "\<not> empty_frame df" and "label \<in> set (columns df)"
    and "set [''Status'', ''PV_USD'', ''Delta_USD'', ''Vega_USD''] \<subseteq> set (columns df)"
  shows "group_risk label key df = Inr (group_sum key (success_rows df))"
proof -
  from assms(3) have m: "missing_column df [''PV_USD'', ''Delta_USD'', ''Vega_USD''] = None"
    by (intro missing_none) auto
  from assms show ?thesis
    by (simp add: group_risk_def Let_def m)
qed

text \<open>
  C9 (amended). On every frame with at least one row (and the columns the aggregator reads):
  the summaries by pair and by currency have exactly one row per key of a \<open>Success\<close> row,
  holding the sums of \<open>PV_USD\<close>, \<open>Delta_USD\<close> and \<open>Vega_USD\<close> over the \<open>Success\<close> rows
  with that key, so that rows with another status occur nowhere in them; when at least one
  row is tagged \<open>Success\<close>, the totals are the sums of the same three columns over the
  \<open>Success\<close> rows and the number of those rows; when none is, the totals are the sentinel
  row and both summaries are empty.
\<close>

theorem aggregation_over_success_rows:
  assumes "set [''Status'', ''Pair'', ''Currency'', ''PV_USD'', ''Delta_USD'', ''Vega_USD'']
             \<subseteq> set (columns df)"
    and "rows df \<noteq> []"
  shows "(success_rows df \<noteq> [] \<longrightarrow>
       calculate_portfolio_totals df =
         Inr [(''Total PV (USD)'', Num (sum_list (map PV_USD_col (success_rows df)))),
              (''Total Delta (USD)'', Num (sum_list (map Delta_USD_col (success_rows df)))),
              (''Total Vega (USD)'', Num (sum_list (map Vega_USD_col (success_rows df)))),
              (''Valid Trades'', Count (length (success_rows df)))]) \<and>
    (success_rows df = [] \<longrightarrow>
       calculate_portfolio_totals df = Inr [(''Status'', Str ''No Valid Trades'')]) \<and>
    (\<exists>by_pair by_ccy.
       group_risk_by_pair df = Inr by_pair \<and> group_risk_by_currency df = Inr by_ccy \<and>
       distinct (map fst by_pair) \<and> distinct (map fst by_ccy) \<and>
       (\<forall>k. map_of by_pair k =
          (if k \<in> Pair_col ` set (success_rows df)
           then Some (key_sums Pair_col (success_rows df) k) else None)) \<and>
       (\<forall>k. map_of by_ccy k =
          (if k \<in> Currency_col ` set (success_rows df)
           then Some (key_sums Currency_col (success_rows df) k) else None)) \<and>
       (success_rows df = [] \<longrightarrow> by_pair = [] \<and> by_ccy = []))"
proof -
  from assms(1) have c: "columns df \<noteq> []" by auto
  from assms(2) c have ne: "\<not> empty_frame df" by (simp add: empty_frame_def)
  from assms(1) have m: "missing_column df [''PV_USD'', ''Delta_USD'', ''Vega_USD''] = None"
    by (intro missing_none) auto
  from assms(1) have st: "''Status'' \<in> set (columns df)" by simp
  have t: "calculate_portfolio_totals df =
      Inr [(''Total PV (USD)'', Num (sum_list (map PV_USD_col (success_rows df)))),
           (''Total Delta (USD)'', Num (sum_list (map Delta_USD_col (success_rows df)))),
           (''Total Vega (USD)'', Num (sum_list (map Vega_USD_col (success_rows df)))),
           (''Valid Trades'', Count (length (success_rows df)))]"
    if "success_rows df \<noteq> []"
    using ne st that by (simp add: calculate_portfolio_totals_def Let_def m)
  have e: "calculate_portfolio_totals df = Inr [(''Status'', Str ''No Valid Trades'')]"
    if "success_rows df = []"
    using ne st that by (simp add: calculate_portfolio_totals_def Let_def)
  from assms(1) have s4: "set [''Status'', ''PV_USD'', ''Delta_USD'', ''Vega_USD'']
      \<subseteq> set (columns df)" by simp
  from assms(1) have lp: "''Pair'' \<in> set (columns df)" and lc: "''Currency'' \<in> set (columns df)"
    by simp_all
  have p: "group_risk_by_pair df = Inr (group_sum Pair_col (success_rows df))"
    unfolding group_risk_by_pair_def by (rule group_risk_eq [OF ne lp s4])
  have q: "group_risk_by_currency df = Inr (group_sum Currency_col (success_rows df))"
    unfolding group_risk_by_currency_def by (rule group_risk_eq [OF ne lc s4])
  have g: "\<exists>by_pair by_ccy.
       group_risk_by_pair df = Inr by_pair \<and> group_risk_by_currency df = Inr by_ccy \<and>
       distinct (map fst by_pair) \<and> distinct (map fst by_ccy) \<and>
       (\<forall>k. map_of by_pair k =
          (if k \<in> Pair_col ` set (success_rows df)
           then Some (key_sums Pair_col (success_rows df) k) else None)) \<and>
       (\<forall>k. map_of by_ccy k =
          (if k \<in> Currency_col ` set (success_rows df)
           then Some (key_sums Currency_col (success_rows df) k) else None)) \<and>
       (success_rows df = [] \<longrightarrow> by_pair = [] \<and> by_ccy = [])"
    unfolding p q
    by (intro exI [of _ "group_sum Pair_col (success_rows df)"]
          exI [of _ "group_sum Currency_col (success_rows df)"])
       (auto simp add: map_of_group_sum distinct_group_sum group_sum_Nil)
  from t e g show ?thesis by blast
qed

lemma test_frame_success:
  "success_rows (prepare_trade_report [row_a, row_b, row_c]) = [row_a, row_b]"
  by (simp add: success_rows_def prepare_trade_report_def row_a_def row_b_def row_c_def)

lemma failed_frame_success: "success_rows (prepare_trade_report [row_c]) = []"
  by (simp add: success_rows_def prepare_trade_report_def row_c_def)

theorem aggregation_over_success_rows_witness:
  "(set [''Status'', ''Pair'', ''Currency'', ''PV_USD'', ''Delta_USD'', ''Vega_USD'']
      \<subseteq> set (columns (prepare_trade_report [row_a, row_b, row_c])) \<and>
    rows (prepare_trade_report [row_a, row_b, row_c]) \<noteq> [] \<and>
    success_rows (prepare_trade_report [row_a, row_b, row_c]) \<noteq> [] \<and>
    calculate_portfolio_totals (prepare_trade_report [row_a, row_b, row_c]) =
      Inr [(''Total PV (USD)'', Num 300), (''Total Delta (USD)'', Num 75),
           (''Total Vega (USD)'', Num 30), (''Valid Trades'', Count 2)] \<and>
    (\<exists>by_ccy. group_risk_by_currency (prepare_trade_report [row_a, row_b, row_c]) = Inr by_ccy \<and>
       map_of by_ccy ''USD'' = Some (100, 50, 10) \<and>
       map_of by_ccy ''JPY'' = Some (200, 25, 20) \<and> map_of by_ccy ''EUR'' = None) \<and>
    (\<exists>by_pair. group_risk_by_pair (prepare_trade_report [row_a, row_b, row_c]) = Inr by_pair \<and>
       map_of by_pair ''EUR/USD'' = Some (100, 50, 10) \<and>
       map_of by_pair ''USD/JPY'' = Some (200, 25, 20))) \<and>
   (set [''Status'', ''Pair'', ''Currency'', ''PV_USD'', ''Delta_USD'', ''Vega_USD'']
      \<subseteq> set (columns (prepare_trade_report [row_c])) \<and>
    rows (prepare_trade_report [row_c]) \<noteq> [] \<and>
    success_rows (prepare_trade_report [row_c]) = [] \<and>
    calculate_portfolio_totals (prepare_trade_report [row_c]) =
      Inr [(''Status'', Str ''No Valid Trades'')] \<and>
    group_risk_by_pair (prepare_trade_report [row_c]) = Inr [] \<and>
    group_risk_by_currency (prepare_trade_report [row_c]) = Inr [])"
proof
  let ?df = "prepare_trade_report [row_a, row_b, row_c]"
  have c: "set [''Status'', ''Pair'', ''Currency'', ''PV_USD'', ''Delta_USD'', ''Vega_USD'']
     \<subseteq> set (columns ?df)"
    using result_columns_set by (simp add: prepare_trade_report_def)
  have r: "rows ?df \<noteq> []" by (simp add: prepare_trade_report_def)
  have n: "success_rows ?df \<noteq> []" by (simp add: test_frame_success)
  note th = aggregation_over_success_rows [OF c r]
  from th n have "calculate_portfolio_totals ?df =
      Inr [(''Total PV (USD)'', Num (sum_list (map PV_USD_col (success_rows ?df)))),
           (''Total Delta (USD)'', Num (sum_list (map Delta_USD_col (success_rows ?df)))),
           (''Total Vega (USD)'', Num (sum_list (map Vega_USD_col (success_rows ?df)))),
           (''Valid Trades'', Count (length (success_rows ?df)))]" by blast
  then have t: "calculate_portfolio_totals ?df =
      Inr [(''Total PV (USD)'', Num 300), (''Total Delta (USD)'', Num 75),
           (''Total Vega (USD)'', Num 30), (''Valid Trades'', Count 2)]"
    unfolding test_frame_success by (simp add: row_a_def row_b_def)
  from th obtain by_pair by_ccy where
    g: "group_risk_by_pair ?df = Inr by_pair" "group_risk_by_currency ?df = Inr by_ccy"
      "\<forall>k. map_of by_pair k =
          (if k \<in> Pair_col ` set (success_rows ?df)
           then Some (key_sums Pair_col (success_rows ?df) k) else None)"
      "\<forall>k. map_of by_ccy k =
          (if k \<in> Currency_col ` set (success_rows ?df)
           then Some (key_sums Currency_col (success_rows ?df) k) else None)"
    by blast
  have "map_of by_ccy ''USD'' = Some (100, 50, 10)" "map_of by_ccy ''JPY'' = Some (200, 25, 20)"
    "map_of by_ccy ''EUR'' = None"
    unfolding g(4) [rule_format] test_frame_success
    by (simp_all add: key_sums_def row_a_def row_b_def)
  moreover have "map_of by_pair ''EUR/USD'' = Some (100, 50, 10)"
    "map_of by_pair ''USD/JPY'' = Some (200, 25, 20)"
    unfolding g(3) [rule_format] test_frame_success
    by (simp_all add: key_sums_def row_a_def row_b_def)
  ultimately show "set [''Status'', ''Pair'', ''Currency'', ''PV_USD'', ''Delta_USD'', ''Vega_USD'']
      \<subseteq> set (columns ?df) \<and>
    rows ?df \<noteq> [] \<and> success_rows ?df \<noteq> [] \<and>
    calculate_portfolio_totals ?df =
      Inr [(''Total PV (USD)'', Num 300), (''Total Delta (USD)'', Num 75),
           (''Total Vega (USD)'', Num 30), (''Valid Trades'', Count 2)] \<and>
    (\<exists>by_ccy. group_risk_by_currency ?df = Inr by_ccy \<and>
       map_of by_ccy ''USD'' = Some (100, 50, 10) \<and>
       map_of by_ccy ''JPY'' = Some (200, 25, 20) \<and> map_of by_ccy ''EUR'' = None) \<and>
    (\<exists>by_pair. group_risk_by_pair ?df = Inr by_pair \<and>
       map_of by_pair ''EUR/USD'' = Some (100, 50, 10) \<and>
       map_of by_pair ''USD/JPY'' = Some (200, 25, 20))"
    using c r n t g(1,2) by blast
next
  let ?df = "prepare_trade_report [row_c]"
  have c: "set [''Status'', ''Pair'', ''Currency'', ''PV_USD'', ''Delta_USD'', ''Vega_USD'']
     \<subseteq> set (columns ?df)"
    using result_columns_set by (simp add: prepare_trade_report_def)
  have r: "rows ?df \<noteq> []" by (simp add: prepare_trade_report_def)
  note e = failed_frame_success
  from aggregation_over_success_rows [OF c r] e
  have "calculate_portfolio_totals ?df = Inr [(''Status'', Str ''No Valid Trades'')] \<and>
    group_risk_by_pair ?df = Inr [] \<and> group_risk_by_currency ?df = Inr []"
    by auto
  with c r e show "set [''Status'', ''Pair'', ''Currency'', ''PV_USD'', ''Delta_USD'', ''Vega_USD'']
      \<subseteq> set (columns ?df) \<and>
    rows ?df \<noteq> [] \<and> success_rows ?df = [] \<and>
    calculate_portfolio_totals ?df = Inr [(''Status'', Str ''No Valid Trades'')] \<and>
    group_risk_by_pair ?df = Inr [] \<and> group_risk_by_currency ?df = Inr []"
    by blast
qed

text \<open>
  A non-empty collection without any \<open>Success\<close> row gives the sentinel row, not totals
  over zero rows.
\<close>

theorem aggregation_over_success_rows_counterexample:
  "rows (prepare_trade_report [row_c]) \<noteq> [] \<and>
   success_rows (prepare_trade_report [row_c]) = [] \<and>
   calculate_portfolio_totals (prepare_trade_report [row_c]) =
     Inr [(''Status'', Str ''No Valid Trades'')] \<and>
   calculate_portfolio_totals (prepare_trade_report [row_c]) \<noteq>
     Inr [(''Total PV (USD)'', Num 0), (''Total Delta (USD)'', Num 0),
          (''Total Vega (USD)'', Num 0), (''Valid Trades'', Count 0)]"
  by (simp add: calculate_portfolio_totals_def prepare_trade_report_def empty_frame_def
      result_columns_def success_rows_def row_c_def)

section \<open>Range of the normal distribution function\<close>

text \<open>
  The series of \<open>norm_cdf\<close> is differentiated term by term; its derivative \<open>exp (- x\<^sup>2 / 2)\<close> is
  bounded by \<open>(1 + x\<^sup>2 / (2 * (m + 1))) ^ - (m + 1)\<close>, whose antiderivative is a multiple of
  \<open>cos_int (2 * m) (arctan \<dots>)\<close>; the Wallis inequality for \<open>cos_int k (pi / 2)\<close> then bounds the
  series by \<open>sqrt (pi / 2)\<close>, and strict monotonicity makes the bound strict.
\<close>

lemma gauss_coeff_term:
  "gauss_coeff k * x ^ k = (if even k then 0 else cdf_term x ((k - 1) div 2))"
proof (cases "even k")
  case True
  then show ?thesis by (simp add: gauss_coeff_def)
next
  case False
  then obtain n where k: "k = 2 * n + 1" by (auto elim: oddE)
  show ?thesis unfolding k by (simp add: gauss_coeff_def cdf_term_def)
qed

lemma gauss_int_sums: "(\<lambda>k. gauss_coeff k * x ^ k) sums gauss_int x"
proof -
  have "cdf_term x sums gauss_int x"
    unfolding gauss_int_def by (rule summable_sums) (rule cdf_term_summable)
  from sums_if' [OF this] show ?thesis
    by (simp only: gauss_coeff_term)
qed

lemma gauss_int_power_series: "gauss_int x = (\<Sum>k. gauss_coeff k * x ^ k)"
  using gauss_int_sums [of x] by (rule sums_unique)

lemma diffs_gauss_coeff:
  "diffs gauss_coeff k * x ^ k =
     (if even k then (- (x\<^sup>2) / 2) ^ (k div 2) /\<^sub>R fact (k div 2) else 0)"
proof (cases "even k")
  case False
  then show ?thesis by (simp add: diffs_def gauss_coeff_def)
next
  case True
  then obtain n where k: "k = 2 * n" by (auto elim: evenE)
  have a: "diffs gauss_coeff k = (- 1) ^ n / (fact n * 2 ^ n)"
    unfolding k diffs_def gauss_coeff_def by simp
  have b: "x ^ k = (x\<^sup>2) ^ n"
    unfolding k by (simp add: power_mult)
  have c: "(- (x\<^sup>2) / 2) ^ n = (- 1) ^ n * (x\<^sup>2) ^ n / 2 ^ n"
  proof -
    have "(- (x\<^sup>2) / 2) ^ n = (- (x\<^sup>2 / 2)) ^ n" by simp
    also have "\<dots> = (- 1) ^ n * (x\<^sup>2 / 2) ^ n" by (rule power_minus)
    finally show ?thesis by (simp add: power_divide)
  qed
  have "diffs gauss_coeff k * x ^ k = (- 1) ^ n / (fact n * 2 ^ n) * (x\<^sup>2) ^ n"
    by (simp only: a b)
  also have "\<dots> = inverse (fact n) * ((- 1) ^ n * (x\<^sup>2) ^ n / 2 ^ n)"
    by (simp add: divide_inverse)
  also have "\<dots> = (- (x\<^sup>2) / 2) ^ n /\<^sub>R fact n"
    by (simp only: c real_scaleR_def)
  finally have e: "diffs gauss_coeff k * x ^ k = (- (x\<^sup>2) / 2) ^ n /\<^sub>R fact n" .
  have d: "k div 2 = n" unfolding k by simp
  show ?thesis
    unfolding e d using True by (simp only: if_True)
qed

lemma diffs_gauss_sums:
  "(\<lambda>k. diffs gauss_coeff k * x ^ k) sums exp (- (x\<^sup>2) / 2)"
proof -
  have z: "(\<lambda>n::nat. 0::real) sums 0" by simp
  have "(\<lambda>n. (- (x\<^sup>2) / 2) ^ n /\<^sub>R fact n) sums exp (- (x\<^sup>2) / 2)"
    by (rule exp_converges)
  from sums_if [OF z this] show ?thesis
    by (simp only: diffs_gauss_coeff add_0_left)
qed

lemma DERIV_gauss_int: "DERIV gauss_int x :> exp (- (x\<^sup>2) / 2)"
proof -
  have s: "summable (\<lambda>k. gauss_coeff k * y ^ k)" for y
    using gauss_int_sums [of y] by (rule sums_summable)
  have "DERIV (\<lambda>x. \<Sum>k. gauss_coeff k * x ^ k) x :> (\<Sum>k. diffs gauss_coeff k * x ^ k)"
    by (rule termdiffs_strong_converges_everywhere) (rule s)
  moreover have "(\<Sum>k. diffs gauss_coeff k * x ^ k) = exp (- (x\<^sup>2) / 2)"
    using diffs_gauss_sums [of x] by (rule sums_unique [symmetric])
  moreover have "(\<lambda>x. \<Sum>k. gauss_coeff k * x ^ k) = gauss_int"
    by (rule ext) (simp add: gauss_int_power_series)
  ultimately show ?thesis by simp
qed

lemma gauss_int_zero: "gauss_int 0 = 0"
  by (simp add: gauss_int_def cdf_term_def)

lemma cos_int_zero: "cos_int k 0 = 0"
proof -
  have "cos_int k 0 = 0 \<and> cos_int (Suc k) 0 = 0"
    by (induction k) simp_all
  then show ?thesis ..
qed

lemma DERIV_cos_int: "DERIV (cos_int k) x :> cos x ^ k"
proof (induction k x rule: cos_int.induct)
  case (1 x)
  have "cos_int 0 = (\<lambda>x. x)" by (rule ext) simp
  then show ?case by simp
next
  case (2 x)
  have "cos_int (Suc 0) = sin" by (rule ext) simp
  then show ?case by simp
next
  case (3 k x)
  have f: "cos_int (Suc (Suc k)) =
      (\<lambda>x. cos x ^ Suc k * sin x / real (k + 2) + real (k + 1) / real (k + 2) * cos_int k x)"
    by (rule ext) simp
  have s: "(sin x)\<^sup>2 = 1 - (cos x)\<^sup>2"
    by (rule sin_squared_eq)
  have e: "(cos x ^ Suc k * cos x + real (Suc k) * cos x ^ k * (- sin x) * sin x) / real (k + 2)
      + real (k + 1) / real (k + 2) * cos x ^ k = cos x ^ Suc (Suc k)"
  proof -
    have "cos x ^ Suc k * cos x + real (Suc k) * cos x ^ k * (- sin x) * sin x
        = cos x ^ k * (cos x)\<^sup>2 - real (k + 1) * cos x ^ k * (sin x)\<^sup>2"
      by (simp add: power2_eq_square)
    also have "\<dots> = real (k + 2) * (cos x ^ k * (cos x)\<^sup>2) - real (k + 1) * cos x ^ k"
      unfolding s by (simp add: algebra_simps)
    finally have "(cos x ^ Suc k * cos x + real (Suc k) * cos x ^ k * (- sin x) * sin x) /
        real (k + 2) = cos x ^ k * (cos x)\<^sup>2 - real (k + 1) / real (k + 2) * cos x ^ k"
      by (simp add: field_simps)
    then show ?thesis by (simp add: power2_eq_square)
  qed
  have c: "DERIV (\<lambda>x. cos x ^ Suc k) x :> real (Suc k) * (- sin x * cos x ^ (Suc k - Suc 0))"
    by (rule DERIV_power) (rule DERIV_cos)
  have "DERIV (\<lambda>x. cos x ^ Suc k * sin x) x :>
      real (Suc k) * (- sin x * cos x ^ (Suc k - Suc 0)) * sin x + cos x * cos x ^ Suc k"
    by (rule DERIV_mult [OF c DERIV_sin])
  moreover have "real (Suc k) * (- sin x * cos x ^ (Suc k - Suc 0)) * sin x + cos x * cos x ^ Suc k
      = cos x ^ Suc k * cos x + real (Suc k) * cos x ^ k * (- sin x) * sin x"
    by simp
  ultimately have d1: "DERIV (\<lambda>x. cos x ^ Suc k * sin x) x :>
      cos x ^ Suc k * cos x + real (Suc k) * cos x ^ k * (- sin x) * sin x"
    by (simp only:)
  have "DERIV (\<lambda>x. cos x ^ Suc k * sin x / real (k + 2) +
            real (k + 1) / real (k + 2) * cos_int k x) x :>
      (cos x ^ Suc k * cos x + real (Suc k) * cos x ^ k * (- sin x) * sin x) / real (k + 2)
      + real (k + 1) / real (k + 2) * cos x ^ k"
    by (intro DERIV_add DERIV_cdivide DERIV_cmult d1 "3.IH")
  then have "DERIV (\<lambda>x. cos x ^ Suc k * sin x / real (k + 2) +
            real (k + 1) / real (k + 2) * cos_int k x) x :> cos x ^ Suc (Suc k)"
    unfolding e .
  then show ?case unfolding f .
qed


lemma cos_int_mono:
  assumes "0 \<le> a" and "a \<le> b" and "b \<le> pi / 2"
  shows "cos_int k a \<le> cos_int k b"
proof (rule DERIV_nonneg_imp_nondecreasing [OF assms(2)])
  fix x assume x: "a \<le> x" "x \<le> b"
  with assms have "0 \<le> cos x" by (intro cos_ge_zero) simp_all
  then have "0 \<le> cos x ^ k" by simp
  with DERIV_cos_int [of k x] show "\<exists>y. DERIV (cos_int k) x :> y \<and> 0 \<le> y" by blast
qed

lemma wallis_nonneg: "0 \<le> cos_int k (pi / 2)"
  using cos_int_mono [of 0 "pi / 2" k] by (simp add: cos_int_zero)

lemma wallis_rec:
  "cos_int (Suc (Suc k)) (pi / 2) = real (k + 1) / real (k + 2) * cos_int k (pi / 2)"
  by simp

lemma wallis_antimono: "cos_int (Suc k) (pi / 2) \<le> cos_int k (pi / 2)"
proof -
  define f where "f = (\<lambda>x. cos_int k x - cos_int (Suc k) x)"
  have le: "(0::real) \<le> pi / 2" by simp
  have "f 0 \<le> f (pi / 2)"
  proof (rule DERIV_nonneg_imp_nondecreasing [OF le])
    fix x :: real assume x: "0 \<le> x" "x \<le> pi / 2"
    then have c: "0 \<le> cos x" by (intro cos_ge_zero) simp_all
    have "cos x ^ Suc k \<le> cos x ^ k"
      using c by (intro power_decreasing) simp_all
    then have "0 \<le> cos x ^ k - cos x ^ Suc k" by simp
    moreover have "DERIV f x :> cos x ^ k - cos x ^ Suc k"
      unfolding f_def by (intro DERIV_diff DERIV_cos_int)
    ultimately show "\<exists>y. DERIV f x :> y \<and> 0 \<le> y"
      by blast
  qed
  then show ?thesis by (simp add: f_def cos_int_zero)
qed

lemma wallis_step_aux:
  fixes a b p :: real
  assumes "0 < a" and "0 < b"
  shows "a / b * (p / (2 * a)) = p / (2 * b)"
  using assms by (simp add: field_simps)

lemma wallis_prod:
  "cos_int k (pi / 2) * cos_int (Suc k) (pi / 2) = pi / (2 * real (k + 1))"
proof (induction k)
  case 0
  show ?case by simp
next
  case (Suc k)
  have "cos_int (Suc k) (pi / 2) * cos_int (Suc (Suc k)) (pi / 2)
      = real (k + 1) / real (k + 2) * (cos_int k (pi / 2) * cos_int (Suc k) (pi / 2))"
    unfolding wallis_rec by (simp only: mult_ac)
  also have "\<dots> = real (k + 1) / real (k + 2) * (pi / (2 * real (k + 1)))"
    by (simp only: Suc.IH)
  also have "\<dots> = pi / (2 * real (k + 2))"
    by (rule wallis_step_aux) simp_all
  also have "real (k + 2) = real (Suc k + 1)" by simp
  finally show ?case .
qed

lemma wallis_square: "(cos_int (Suc k) (pi / 2))\<^sup>2 \<le> pi / (2 * real (k + 1))"
proof -
  have "(cos_int (Suc k) (pi / 2))\<^sup>2 = cos_int (Suc k) (pi / 2) * cos_int (Suc k) (pi / 2)"
    by (simp add: power2_eq_square)
  also have "\<dots> \<le> cos_int k (pi / 2) * cos_int (Suc k) (pi / 2)"
    by (intro mult_right_mono wallis_antimono wallis_nonneg)
  finally show ?thesis by (simp only: wallis_prod)
qed


lemma exp_minus_half_square_le:
  "exp (- (x\<^sup>2) / 2) \<le> inverse ((1 + x\<^sup>2 / (2 * real (m + 2))) ^ (m + 2))"
proof -
  define y where "y = x\<^sup>2 / (2 * real (m + 2))"
  have y: "0 \<le> y" by (simp add: y_def)
  have "(1 + y) ^ (m + 2) \<le> exp y ^ (m + 2)"
    using y by (intro power_mono) simp_all
  also have "\<dots> = exp (real (m + 2) * y)"
    by (rule exp_of_nat_mult [symmetric])
  also have "real (m + 2) * y = x\<^sup>2 / 2"
  proof -
    have "a * (z / (2 * a)) = z / 2" if "a \<noteq> 0" for a z :: real
      using that by simp
    from this [of "real (m + 2)" "x\<^sup>2"] show ?thesis
      unfolding y_def by simp
  qed
  finally have "(1 + y) ^ (m + 2) \<le> exp (x\<^sup>2 / 2)" .
  moreover have "0 < (1 + y) ^ (m + 2)"
    using y by (intro zero_less_power) simp
  ultimately have "inverse (exp (x\<^sup>2 / 2)) \<le> inverse ((1 + y) ^ (m + 2))"
    by (rule le_imp_inverse_le)
  moreover have "exp (- (x\<^sup>2) / 2) = inverse (exp (x\<^sup>2 / 2))"
    using exp_minus [of "x\<^sup>2 / 2"] by simp
  ultimately show ?thesis by (simp only: y_def)
qed

lemma cos_arctan_power:
  "cos (arctan u) ^ (2 * m + 2) = inverse ((1 + u\<^sup>2) ^ (m + 1))"
proof -
  have p: "0 < 1 + u\<^sup>2" by (simp add: add_pos_nonneg)
  have "(cos (arctan u))\<^sup>2 = inverse (1 + u\<^sup>2)"
    using p by (simp add: cos_arctan power_divide inverse_eq_divide)
  moreover have "cos (arctan u) ^ (2 * m + 2) = ((cos (arctan u))\<^sup>2) ^ (m + 1)"
  proof -
    have "2 * m + 2 = 2 * (m + 1)" by simp
    then show ?thesis by (simp only: power_mult)
  qed
  ultimately show ?thesis by (simp add: power_inverse)
qed

lemma DERIV_wallis_bound:
  fixes s :: real
  assumes "0 < s"
  shows "DERIV (\<lambda>x. s * cos_int (2 * m + 2) (arctan (x / s))) x :>
           inverse ((1 + (x / s)\<^sup>2) ^ (m + 2))"
proof -
  have a: "DERIV (\<lambda>x. x / s) x :> 1 / s"
    by (rule DERIV_cdivide) (rule DERIV_ident)
  have b: "DERIV (\<lambda>x. arctan (x / s)) x :> inverse (1 + (x / s)\<^sup>2) * (1 / s)"
    by (rule DERIV_chain2 [OF DERIV_arctan a])
  have c: "DERIV (\<lambda>x. cos_int (2 * m + 2) (arctan (x / s))) x :>
      cos (arctan (x / s)) ^ (2 * m + 2) * (inverse (1 + (x / s)\<^sup>2) * (1 / s))"
    by (rule DERIV_chain2 [OF DERIV_cos_int b])
  have "DERIV (\<lambda>x. s * cos_int (2 * m + 2) (arctan (x / s))) x :>
      s * (cos (arctan (x / s)) ^ (2 * m + 2) * (inverse (1 + (x / s)\<^sup>2) * (1 / s)))"
    by (rule DERIV_cmult [OF c])
  moreover have "s * (cos (arctan (x / s)) ^ (2 * m + 2) * (inverse (1 + (x / s)\<^sup>2) * (1 / s)))
      = inverse ((1 + (x / s)\<^sup>2) ^ (m + 2))"
  proof -
    have "s * (cos (arctan (x / s)) ^ (2 * m + 2) * (inverse (1 + (x / s)\<^sup>2) * (1 / s)))
        = cos (arctan (x / s)) ^ (2 * m + 2) * inverse (1 + (x / s)\<^sup>2)"
      using assms by simp
    also have "\<dots> = inverse ((1 + (x / s)\<^sup>2) ^ (m + 1)) * inverse (1 + (x / s)\<^sup>2)"
      by (simp only: cos_arctan_power)
    also have "\<dots> = inverse ((1 + (x / s)\<^sup>2) ^ (m + 1) * (1 + (x / s)\<^sup>2))"
      by (simp only: inverse_mult_distrib)
    also have "(1 + (x / s)\<^sup>2) ^ (m + 1) * (1 + (x / s)\<^sup>2) = (1 + (x / s)\<^sup>2) ^ (m + 2)"
      by simp
    finally show ?thesis .
  qed
  ultimately show ?thesis by (simp only:)
qed


lemma gauss_int_strict_mono:
  assumes "a < b"
  shows "gauss_int a < gauss_int b"
proof (rule DERIV_pos_imp_increasing [OF assms])
  fix x :: real
  have "0 < exp (- (x\<^sup>2) / 2)" by simp
  with DERIV_gauss_int [of x] show "\<exists>y. DERIV gauss_int x :> y \<and> 0 < y" by blast
qed

lemma gauss_int_nonneg: "0 \<le> x \<Longrightarrow> 0 \<le> gauss_int x"
  using gauss_int_strict_mono [of 0 x] by (cases "x = 0") (simp_all add: gauss_int_zero)

lemma gauss_int_minus: "gauss_int (- x) = - gauss_int x"
  by (simp add: gauss_int_def cdf_term_minus suminf_minus [OF cdf_term_summable])

lemma gauss_int_le_wallis:
  assumes "0 \<le> x"
  shows "gauss_int x \<le> sqrt (2 * real (m + 2)) * cos_int (2 * m + 2) (pi / 2)"
proof -
  define s where "s = sqrt (2 * real (m + 2))"
  have s: "0 < s" by (simp add: s_def)
  have s2: "s\<^sup>2 = 2 * real (m + 2)" by (simp add: s_def)
  define h where "h = (\<lambda>x. s * cos_int (2 * m + 2) (arctan (x / s)) - gauss_int x)"
  have "h 0 \<le> h x"
  proof (rule DERIV_nonneg_imp_nondecreasing [OF assms])
    fix y :: real
    have sq: "(y / s)\<^sup>2 = y\<^sup>2 / (2 * real (m + 2))"
      by (simp only: power_divide s2)
    have "exp (- (y\<^sup>2) / 2) \<le> inverse ((1 + (y / s)\<^sup>2) ^ (m + 2))"
      unfolding sq by (rule exp_minus_half_square_le)
    then have "0 \<le> inverse ((1 + (y / s)\<^sup>2) ^ (m + 2)) - exp (- (y\<^sup>2) / 2)" by simp
    moreover have "DERIV h y :> inverse ((1 + (y / s)\<^sup>2) ^ (m + 2)) - exp (- (y\<^sup>2) / 2)"
      unfolding h_def by (intro DERIV_diff DERIV_wallis_bound [OF s] DERIV_gauss_int)
    ultimately show "\<exists>d. DERIV h y :> d \<and> 0 \<le> d" by blast
  qed
  then have "gauss_int x \<le> s * cos_int (2 * m + 2) (arctan (x / s))"
    by (simp add: h_def cos_int_zero gauss_int_zero)
  also have "\<dots> \<le> s * cos_int (2 * m + 2) (pi / 2)"
  proof (rule mult_left_mono)
    show "0 \<le> s" using s by simp
    have "0 \<le> x / s" using assms s by simp
    then have "0 \<le> arctan (x / s)" by simp
    moreover have "arctan (x / s) \<le> pi / 2"
      using arctan_ubound [of "x / s"] by simp
    ultimately show "cos_int (2 * m + 2) (arctan (x / s)) \<le> cos_int (2 * m + 2) (pi / 2)"
      by (intro cos_int_mono) simp_all
  qed
  finally show ?thesis by (simp only: s_def)
qed

lemma gauss_int_square_le:
  assumes "0 \<le> x"
  shows "(gauss_int x)\<^sup>2 \<le> pi / 2 + pi / 2 * inverse (real (Suc m))"
proof -
  have k: "2 * m + 2 = Suc (2 * m + 1)" by simp
  have w: "(cos_int (2 * m + 2) (pi / 2))\<^sup>2 \<le> pi / (2 * real (2 * m + 1 + 1))"
    unfolding k by (rule wallis_square)
  have "(gauss_int x)\<^sup>2 \<le> (sqrt (2 * real (m + 2)) * cos_int (2 * m + 2) (pi / 2))\<^sup>2"
    by (intro power_mono gauss_int_le_wallis gauss_int_nonneg assms)
  also have "\<dots> = 2 * real (m + 2) * (cos_int (2 * m + 2) (pi / 2))\<^sup>2"
  proof -
    have "(sqrt (2 * real (m + 2)))\<^sup>2 = 2 * real (m + 2)" by simp
    then show ?thesis by (simp only: power_mult_distrib)
  qed
  also have "\<dots> \<le> 2 * real (m + 2) * (pi / (2 * real (2 * m + 1 + 1)))"
    by (intro mult_left_mono w) simp
  also have "\<dots> = pi / 2 + pi / 2 * inverse (real (Suc m))"
  proof -
    have "2 * (a + 1) * (p / (2 * (2 * a))) = p / 2 + p / 2 * inverse a" if "0 < a" for a p :: real
      using that by (simp add: field_simps)
    from this [of "real (Suc m)" pi] show ?thesis
      by (simp add: algebra_simps)
  qed
  finally show ?thesis .
qed


lemma gauss_int_square_le_pi:
  assumes "0 \<le> x"
  shows "(gauss_int x)\<^sup>2 \<le> pi / 2"
proof (rule field_le_epsilon)
  fix e :: real assume e: "0 < e"
  then have "0 < e / (pi / 2)" by simp
  then obtain m where m: "inverse (real (Suc m)) < e / (pi / 2)"
    using reals_Archimedean by blast
  then have "pi / 2 * inverse (real (Suc m)) < e"
    by (simp add: field_simps)
  with gauss_int_square_le [OF assms, of m] show "(gauss_int x)\<^sup>2 \<le> pi / 2 + e"
    by simp
qed

lemma gauss_int_less: "gauss_int x < sqrt (pi / 2)"
proof -
  have "gauss_int x < gauss_int (\<bar>x\<bar> + 1)"
    by (rule gauss_int_strict_mono) simp
  also have "\<dots> \<le> sqrt (pi / 2)"
    by (rule real_le_rsqrt) (rule gauss_int_square_le_pi, simp)
  finally show ?thesis .
qed

lemma gauss_int_greater: "- sqrt (pi / 2) < gauss_int x"
  using gauss_int_less [of "- x"] by (simp add: gauss_int_minus)





section \<open>Bounds of the engine outputs\<close>
























end
